theory Spec2Isabelle
  imports Complex_Main
begin

section \<open>The ADR component of the LoRaWAN network server (adr-component.cc)\<close>

text \<open>
  The embedding follows \<^verbatim>\<open>src/adr-component.cc\<close> function by function.

  \<^item> A C++ \<^verbatim>\<open>double\<close> is modelled as a real number: rounding, infinities and NaN are not
    represented. Where the C++ evaluation has no value in the reals (a division by a zero
    size, a read past the end of an array or of a list, a read of a local that was never
    assigned, a conversion from \<^verbatim>\<open>double\<close> to \<^verbatim>\<open>int\<close> that does not fit), the model returns
    a \<open>fault\<close> instead of a number.
  \<^item> A C++ \<^verbatim>\<open>int\<close> is modelled as an unbounded integer; the only place an \<^verbatim>\<open>int\<close> is
    produced from a value of unbounded size is the conversion from \<^verbatim>\<open>double\<close>, which checks
    the 32-bit range.
  \<^item> The types of the surrounding ns-3 lorawan module (\<^verbatim>\<open>EndDeviceStatus\<close>, its reply, the
    frame and MAC headers) are records holding the fields this file reads and writes; the
    three header operations the hook calls store their arguments as they are passed.
  \<^item> The functions are taken with the signatures of their definitions in
    \<^verbatim>\<open>adr-component.cc\<close> (\<^verbatim>\<open>int\<close> data rate, power and spreading factor); the declarations in
    \<^verbatim>\<open>adr-component.h\<close> say \<^verbatim>\<open>uint8_t\<close> for the same parameters.
\<close>

type_synonym double = real

datatype fault =
    DivisionByZero
  | IndexOutOfBounds
  | IteratorOutOfRange
  | UninitializedRead
  | ConversionOutOfRange

subsection \<open>The members of the class (adr-component.h)\<close>

text \<open>
  The three policy members (\<^verbatim>\<open>tpAveraging\<close>, \<^verbatim>\<open>historyRange\<close>, \<^verbatim>\<open>historyAveraging\<close>) are the
  fields of the object; the header initialises them to 1, 20 and 1. The remaining \<^verbatim>\<open>const\<close>
  members are constants with the values of their in-class initialisers.
\<close>

record AdrComponent =
  tpAveraging :: bool
  historyRange :: nat
  historyAveraging :: bool

definition AdrComponent_default :: AdrComponent where
  "AdrComponent_default =
     \<lparr>tpAveraging = True, historyRange = 20, historyAveraging = True\<rparr>"

definition min_spreadingFactor :: int where
  "min_spreadingFactor = 7"

definition min_transmissionPower :: int where
  "min_transmissionPower = 2"

definition max_transmissionPower :: int where
  "max_transmissionPower = 14"

definition offset :: int where
  "offset = 10"

definition B :: int where
  "B = 125000"

definition NF :: int where
  "NF = 6"

definition treshold :: "double list" where
  "treshold = [-20, -35 / 2, -15, -25 / 2, -10, -15 / 2]"

text \<open>Reading \<^verbatim>\<open>treshold[i]\<close>: the array has six entries, any other index is out of bounds.\<close>

definition treshold_at :: "int \<Rightarrow> fault + double" where
  "treshold_at i =
     (if 0 \<le> i \<and> i < int (length treshold) then Inr (treshold ! nat i)
      else Inl IndexOutOfBounds)"

subsection \<open>The device record (ns-3 lorawan, as far as this file uses it)\<close>

record PacketInfoPerGw =
  rxPower :: double

type_synonym GatewayList = "(nat \<times> PacketInfoPerGw) list"

record ReceivedPacketInfo =
  gwList :: GatewayList

type_synonym ReceivedPacketList = "(nat \<times> ReceivedPacketInfo) list"

datatype MType =
    JOIN_REQUEST
  | JOIN_ACCEPT
  | UNCONFIRMED_DATA_UP
  | UNCONFIRMED_DATA_DOWN
  | CONFIRMED_DATA_UP
  | CONFIRMED_DATA_DOWN
  | PROPRIETARY

record LinkAdrReq =
  dataRate :: int
  txPower :: int
  enabledChannels :: "int list"
  repetitions :: int

record LoraFrameHeader =
  macCommands :: "LinkAdrReq list"
  isUplink :: bool

record LoraMacHeader =
  mtype :: MType

record Reply =
  needsReply :: bool
  frameHeader :: LoraFrameHeader
  macHeader :: LoraMacHeader

text \<open>
  \<open>lastPacketAdr\<close> is the ADR bit of the frame header of the last packet received from
  the device (\<^verbatim>\<open>fHdr.GetAdr()\<close> after \<^verbatim>\<open>RemoveHeader\<close>); \<open>transmissionPower\<close> is
  \<^verbatim>\<open>GetMac()->GetTransmissionPower()\<close>.
\<close>

record EndDeviceStatus =
  lastPacketAdr :: bool
  receivedPacketList :: ReceivedPacketList
  firstReceiveWindowSpreadingFactor :: int
  transmissionPower :: double
  m_reply :: Reply

definition AddLinkAdrReq :: "int \<Rightarrow> int \<Rightarrow> int list \<Rightarrow> int \<Rightarrow> LoraFrameHeader \<Rightarrow> LoraFrameHeader" where
  "AddLinkAdrReq dr tp chans rep h =
     h\<lparr>macCommands := macCommands h @
          [\<lparr>dataRate = dr, txPower = tp, enabledChannels = chans, repetitions = rep\<rparr>]\<rparr>"

definition SetAsDownlink :: "LoraFrameHeader \<Rightarrow> LoraFrameHeader" where
  "SetAsDownlink h = h\<lparr>isUplink := False\<rparr>"

definition SetMType :: "MType \<Rightarrow> LoraMacHeader \<Rightarrow> LoraMacHeader" where
  "SetMType t h = h\<lparr>mtype := t\<rparr>"

subsection \<open>Conversions\<close>

text \<open>
  The implicit conversion from \<^verbatim>\<open>double\<close> to \<^verbatim>\<open>int\<close> truncates towards zero and has no
  defined result when the truncated value is not a 32-bit \<^verbatim>\<open>int\<close>.
\<close>

definition double_to_int :: "double \<Rightarrow> fault + int" where
  "double_to_int x =
     (let t = (if 0 \<le> x then \<lfloor>x\<rfloor> else \<lceil>x\<rceil>)
      in if - (2 ^ 31) \<le> t \<and> t < 2 ^ 31 then Inr t else Inl ConversionOutOfRange)"

definition SfToDr :: "int \<Rightarrow> int" where
  "SfToDr sf = sf - 7"

definition TxPowerToSNR :: "double \<Rightarrow> double" where
  "TxPowerToSNR tp =
     tp + 174 - 10 * log 10 (real_of_int B) - real_of_int NF"

subsection \<open>Aggregation over the gateways of one packet\<close>

text \<open>\<^verbatim>\<open>GetMaxTxFromGateways\<close>: the running maximum starts at \<^verbatim>\<open>min_transmissionPower\<close>.\<close>

fun GetMaxTxFromGateways_loop :: "GatewayList \<Rightarrow> double \<Rightarrow> double" where
  "GetMaxTxFromGateways_loop [] mx = mx"
| "GetMaxTxFromGateways_loop (it # rest) mx =
     GetMaxTxFromGateways_loop rest (if rxPower (snd it) > mx then rxPower (snd it) else mx)"

definition GetMaxTxFromGateways :: "GatewayList \<Rightarrow> double" where
  "GetMaxTxFromGateways gwl =
     GetMaxTxFromGateways_loop gwl (real_of_int min_transmissionPower)"

text \<open>\<^verbatim>\<open>GetAverageTxFromGateways\<close>: the sum of the reports divided by \<^verbatim>\<open>gwList.size()\<close>.\<close>

fun GetAverageTxFromGateways_loop :: "GatewayList \<Rightarrow> double \<Rightarrow> double" where
  "GetAverageTxFromGateways_loop [] sm = sm"
| "GetAverageTxFromGateways_loop (it # rest) sm =
     GetAverageTxFromGateways_loop rest (sm + rxPower (snd it))"

definition GetAverageTxFromGateways :: "GatewayList \<Rightarrow> fault + double" where
  "GetAverageTxFromGateways gwl =
     (let sm = GetAverageTxFromGateways_loop gwl 0
      in if length gwl = 0 then Inl DivisionByZero else Inr (sm / real (length gwl)))"

definition GetReceivedPower :: "AdrComponent \<Rightarrow> GatewayList \<Rightarrow> fault + double" where
  "GetReceivedPower this gwl =
     (if tpAveraging this then GetAverageTxFromGateways gwl
      else Inr (TxPowerToSNR (GetMaxTxFromGateways gwl)))"

subsection \<open>Aggregation over the history\<close>

text \<open>
  Both history loops compute \<^verbatim>\<open>TxPowerToSNR(GetReceivedPower(it->second.gwList))\<close> for the
  packet under the iterator (lines 231 and 250); \<open>packetSNR\<close> names that expression.
\<close>

definition packetSNR :: "AdrComponent \<Rightarrow> nat \<times> ReceivedPacketInfo \<Rightarrow> fault + double" where
  "packetSNR this it =
     (case GetReceivedPower this (gwList (snd it)) of
        Inl f \<Rightarrow> Inl f
      | Inr p \<Rightarrow> Inr (TxPowerToSNR p))"

text \<open>
  \<^verbatim>\<open>GetMaxSNR\<close>: \<open>n\<close> iterations from \<^verbatim>\<open>rbegin()\<close>; the first argument of the loop is what
  is left of the reversed list under the iterator. Dereferencing the iterator at
  \<^verbatim>\<open>rend()\<close> is a fault.
\<close>

fun GetMaxSNR_loop :: "AdrComponent \<Rightarrow> ReceivedPacketList \<Rightarrow> nat \<Rightarrow> double \<Rightarrow> fault + double" where
  "GetMaxSNR_loop this its 0 mx = Inr mx"
| "GetMaxSNR_loop this [] (Suc n) mx = Inl IteratorOutOfRange"
| "GetMaxSNR_loop this (it # its) (Suc n) mx =
     (case packetSNR this it of
        Inl f \<Rightarrow> Inl f
      | Inr m_SNR \<Rightarrow> GetMaxSNR_loop this its n (if m_SNR > mx then m_SNR else mx))"

definition GetMaxSNR :: "AdrComponent \<Rightarrow> ReceivedPacketList \<Rightarrow> nat \<Rightarrow> fault + double" where
  "GetMaxSNR this packetList hRange =
     GetMaxSNR_loop this (rev packetList) hRange
       (TxPowerToSNR (real_of_int min_transmissionPower))"

text \<open>
  \<^verbatim>\<open>GetAverageSNR\<close>: the loop keeps the running \<^verbatim>\<open>sum\<close> and the last \<^verbatim>\<open>m_SNR\<close> (\<open>None\<close>
  while it is unassigned); the function returns \<^verbatim>\<open>m_SNR / historyRange\<close>.
\<close>

fun GetAverageSNR_loop ::
  "AdrComponent \<Rightarrow> ReceivedPacketList \<Rightarrow> nat \<Rightarrow> double \<Rightarrow> double option \<Rightarrow>
   fault + (double \<times> double option)" where
  "GetAverageSNR_loop this its 0 sm m = Inr (sm, m)"
| "GetAverageSNR_loop this [] (Suc n) sm m = Inl IteratorOutOfRange"
| "GetAverageSNR_loop this (it # its) (Suc n) sm m =
     (case packetSNR this it of
        Inl f \<Rightarrow> Inl f
      | Inr m_SNR \<Rightarrow> GetAverageSNR_loop this its n (sm + m_SNR) (Some m_SNR))"

definition GetAverageSNR :: "AdrComponent \<Rightarrow> ReceivedPacketList \<Rightarrow> nat \<Rightarrow> fault + double" where
  "GetAverageSNR this packetList hRange =
     (case GetAverageSNR_loop this (rev packetList) hRange 0 None of
        Inl f \<Rightarrow> Inl f
      | Inr (sm, None) \<Rightarrow> Inl UninitializedRead
      | Inr (sm, Some m_SNR) \<Rightarrow>
          if hRange = 0 then Inl DivisionByZero else Inr (m_SNR / real hRange))"

subsection \<open>The decision algorithm\<close>

text \<open>The three \<^verbatim>\<open>while\<close> loops of \<^verbatim>\<open>AdrImplementation\<close> (lines 155 to 169).\<close>

function AdrImplementation_loop1 :: "int \<Rightarrow> int \<Rightarrow> int \<times> int" where
  "AdrImplementation_loop1 steps spreadingFactor =
     (if steps > 0 \<and> spreadingFactor > min_spreadingFactor
      then AdrImplementation_loop1 (steps - 1) (spreadingFactor - 1)
      else (steps, spreadingFactor))"
  by pat_completeness auto
termination
  by (relation "measure (\<lambda>(steps, sf). nat steps)") auto

function AdrImplementation_loop2 :: "int \<Rightarrow> double \<Rightarrow> int \<times> double" where
  "AdrImplementation_loop2 steps tp =
     (if steps > 0 \<and> tp > real_of_int min_transmissionPower
      then AdrImplementation_loop2 (steps - 1) (tp - 3)
      else (steps, tp))"
  by pat_completeness auto
termination
  by (relation "measure (\<lambda>(steps, tp). nat steps)") auto

function AdrImplementation_loop3 :: "int \<Rightarrow> double \<Rightarrow> int \<times> double" where
  "AdrImplementation_loop3 steps tp =
     (if steps < 0 \<and> tp < real_of_int max_transmissionPower
      then AdrImplementation_loop3 (steps + 1) (tp + 3)
      else (steps, tp))"
  by pat_completeness auto
termination
  by (relation "measure (\<lambda>(steps, tp). nat (- steps))") auto

text \<open>
  The loop equations are unconditional, so they are unfolded by hand (one iteration at a
  time) and kept out of the simplifier.
\<close>

declare AdrImplementation_loop1.simps [simp del]
declare AdrImplementation_loop2.simps [simp del]
declare AdrImplementation_loop3.simps [simp del]

text \<open>
  The loops in sequence: from the step count, the spreading factor and the transmission
  power to the final spreading factor and transmission power (the values of the locals
  at line 170).
\<close>

definition AdrImplementation_steps :: "int \<Rightarrow> int \<Rightarrow> double \<Rightarrow> int \<times> double" where
  "AdrImplementation_steps steps spreadingFactor tp =
     (case AdrImplementation_loop1 steps spreadingFactor of (steps1, sf1) \<Rightarrow>
      case AdrImplementation_loop2 steps1 tp of (steps2, tp2) \<Rightarrow>
      case AdrImplementation_loop3 steps2 tp2 of (steps3, tp3) \<Rightarrow> (sf1, tp3))"

text \<open>Lines 120 to 144: the aggregated SNR, the required SNR, the margin and the steps.\<close>

definition AdrImplementation_m_SNR :: "AdrComponent \<Rightarrow> EndDeviceStatus \<Rightarrow> fault + double" where
  "AdrImplementation_m_SNR this status =
     (if historyAveraging this
      then GetAverageSNR this (receivedPacketList status) (historyRange this)
      else GetMaxSNR this (receivedPacketList status) (historyRange this))"

definition AdrImplementation_nsteps :: "AdrComponent \<Rightarrow> EndDeviceStatus \<Rightarrow> fault + int" where
  "AdrImplementation_nsteps this status =
     (case AdrImplementation_m_SNR this status of
        Inl f \<Rightarrow> Inl f
      | Inr m_SNR \<Rightarrow>
     (case treshold_at (SfToDr (firstReceiveWindowSpreadingFactor status)) of
        Inl f \<Rightarrow> Inl f
      | Inr req_SNR \<Rightarrow>
          let margin_SNR = m_SNR - req_SNR - real_of_int offset
          in double_to_int (real_of_int \<lfloor>margin_SNR / 3\<rfloor>)))"

text \<open>
  \<open>AdrImplementation_final\<close> is the pair of locals (\<^verbatim>\<open>spreadingFactor\<close>,
  \<^verbatim>\<open>transmissionPower\<close>) after the loops; \<open>AdrImplementation\<close> is the pair written through
  the two pointers (\<^verbatim>\<open>*newDataRate\<close>, \<^verbatim>\<open>*newTxPower\<close>).
\<close>

definition AdrImplementation_final :: "AdrComponent \<Rightarrow> EndDeviceStatus \<Rightarrow> fault + (int \<times> double)" where
  "AdrImplementation_final this status =
     (case AdrImplementation_nsteps this status of
        Inl f \<Rightarrow> Inl f
      | Inr steps \<Rightarrow>
          Inr (AdrImplementation_steps steps
                 (firstReceiveWindowSpreadingFactor status) (transmissionPower status)))"

definition AdrImplementation :: "AdrComponent \<Rightarrow> EndDeviceStatus \<Rightarrow> fault + (int \<times> int)" where
  "AdrImplementation this status =
     (case AdrImplementation_final this status of
        Inl f \<Rightarrow> Inl f
      | Inr (sf, tp) \<Rightarrow>
          (case double_to_int tp of
             Inl f \<Rightarrow> Inl f
           | Inr newTxPower \<Rightarrow> Inr (SfToDr sf, newTxPower)))"

subsection \<open>The hooks\<close>

definition OnReceivedPacket :: "AdrComponent \<Rightarrow> EndDeviceStatus \<Rightarrow> EndDeviceStatus" where
  "OnReceivedPacket this status = status"

definition OnFailedReply :: "AdrComponent \<Rightarrow> EndDeviceStatus \<Rightarrow> EndDeviceStatus" where
  "OnFailedReply this status = status"

definition BeforeSendingReply :: "AdrComponent \<Rightarrow> EndDeviceStatus \<Rightarrow> fault + EndDeviceStatus" where
  "BeforeSendingReply this status =
     (if lastPacketAdr status then
        (if length (receivedPacketList status) < historyRange this then Inr status
         else
           let status1 = status\<lparr>m_reply := (m_reply status)\<lparr>needsReply := True\<rparr>\<rparr>
           in (case AdrImplementation this status1 of
                 Inl f \<Rightarrow> Inl f
               | Inr (newDataRate, newTxPower) \<Rightarrow>
                   let r = m_reply status1;
                       fh1 = AddLinkAdrReq newDataRate newTxPower [1, 2, 3] 1 (frameHeader r);
                       fh2 = SetAsDownlink fh1;
                       mh = SetMType UNCONFIRMED_DATA_DOWN (macHeader r)
                   in Inr (status1\<lparr>m_reply := r\<lparr>frameHeader := fh2, macHeader := mh\<rparr>\<rparr>)))
      else Inr status)"

subsection \<open>The constant of the conversion, and example inputs\<close>

text \<open>\<^verbatim>\<open>TxPowerToSNR\<close> adds \<^verbatim>\<open>174 - 10 * log10(B) - NF\<close> to its argument.\<close>

definition noise_const :: real where
  "noise_const = 174 - 10 * log 10 (real_of_int B) - real_of_int NF"

text \<open>A packet heard by one gateway with the received power \<open>p\<close>.\<close>

definition example_packet :: "double \<Rightarrow> nat \<times> ReceivedPacketInfo" where
  "example_packet p = (0, \<lparr>gwList = [(0, \<lparr>rxPower = p\<rparr>)]\<rparr>)"

definition example_reply :: Reply where
  "example_reply =
     \<lparr>needsReply = False,
      frameHeader = \<lparr>macCommands = [], isUplink = True\<rparr>,
      macHeader = \<lparr>mtype = UNCONFIRMED_DATA_UP\<rparr>\<rparr>"

text \<open>
  A device with twenty packets in its history, each heard by one gateway at -80 dBm, at
  spreading factor 7 and 14 dBm, whose last uplink asks for ADR.
\<close>

definition example_status :: EndDeviceStatus where
  "example_status =
     \<lparr>lastPacketAdr = True,
      receivedPacketList = replicate 20 (example_packet (- 80)),
      firstReceiveWindowSpreadingFactor = 7,
      transmissionPower = 14,
      m_reply = example_reply\<rparr>"

text \<open>
  Inputs on which every step of the decision has a value: a window that the history
  fills, no packet without a gateway report, a spreading factor with an entry in the
  table, and powers of at most 1000 dBm in absolute value (so that the two conversions
  to \<^verbatim>\<open>int\<close> fit).
\<close>

definition well_formed :: "AdrComponent \<Rightarrow> EndDeviceStatus \<Rightarrow> bool" where
  "well_formed this status \<longleftrightarrow>
     0 < historyRange this
     \<and> historyRange this \<le> length (receivedPacketList status)
     \<and> 7 \<le> firstReceiveWindowSpreadingFactor status
     \<and> firstReceiveWindowSpreadingFactor status \<le> 12
     \<and> \<bar>transmissionPower status\<bar> \<le> 1000
     \<and> (\<forall>it \<in> set (take (historyRange this) (rev (receivedPacketList status))).
           gwList (snd it) \<noteq> []
           \<and> (\<forall>g \<in> set (gwList (snd it)). \<bar>rxPower (snd g)\<bar> \<le> 1000))"

section \<open>Properties\<close>

subsection \<open>The constant of the conversion\<close>

lemma log10_2_lower: "3 / 10 < log 10 (2::real)"
proof -
  have "(10::real) ^ 3 < 2 ^ 10" by simp
  then have "log 10 ((10::real) ^ 3) < log 10 (2 ^ 10)"
    by (subst log_less_cancel_iff) simp_all
  moreover have "log 10 ((2::real) ^ 10) = real 10 * log 10 2"
    by (rule log_nat_power) simp
  moreover have "log 10 ((10::real) ^ 3) = real 3 * log 10 10"
    by (rule log_nat_power) simp
  ultimately have "real 3 * log 10 10 < real 10 * log 10 (2::real)"
    by (simp only:)
  then show ?thesis by simp
qed

lemma log10_2_upper: "log 10 (2::real) < 28 / 93"
proof -
  have "(2::real) ^ 93 < 10 ^ 28" by simp
  then have "log 10 ((2::real) ^ 93) < log 10 (10 ^ 28)"
    by (subst log_less_cancel_iff) simp_all
  moreover have "log 10 ((2::real) ^ 93) = real 93 * log 10 2"
    by (rule log_nat_power) simp
  moreover have "log 10 ((10::real) ^ 28) = real 28 * log 10 10"
    by (rule log_nat_power) simp
  ultimately have "real 93 * log 10 (2::real) < real 28 * log 10 10"
    by (simp only:)
  then show ?thesis by simp
qed

lemma log10_125000: "log 10 (125000::real) = 6 - 3 * log 10 2"
proof -
  have "log 10 (125000::real) = log 10 (10 ^ 6 / 2 ^ 3)" by simp
  also have "\<dots> = log 10 (10 ^ 6) - log 10 ((2::real) ^ 3)"
    by (rule log_divide_pos) simp_all
  also have "log 10 ((10::real) ^ 6) = real 6 * log 10 10"
    by (rule log_nat_power) simp
  also have "log 10 ((2::real) ^ 3) = real 3 * log 10 2"
    by (rule log_nat_power) simp
  finally show ?thesis by simp
qed

lemma TxPowerToSNR_eq: "TxPowerToSNR x = x + noise_const"
  by (simp add: TxPowerToSNR_def noise_const_def)

lemma noise_const_eq: "noise_const = 108 + 30 * log 10 2"
  by (simp add: noise_const_def B_def NF_def log10_125000)

lemma noise_const_lower: "117 < noise_const"
  using log10_2_lower by (simp add: noise_const_eq)

lemma noise_const_upper: "noise_const < 11704 / 100"
  using log10_2_upper by (simp add: noise_const_eq)

subsection \<open>A history of equal packets\<close>

lemma GetAverageSNR_loop_replicate:
  "packetSNR this it = Inr x \<Longrightarrow> n \<le> k \<Longrightarrow>
   GetAverageSNR_loop this (replicate k it) n sm m =
     Inr (sm + real n * x, if n = 0 then m else Some x)"
proof (induction n arbitrary: k sm m)
  case 0
  then show ?case by simp
next
  case (Suc n)
  then obtain k' where k: "k = Suc k'" by (cases k) auto
  with Suc show ?case by (simp add: algebra_simps)
qed

subsection \<open>The three loops in closed form\<close>

lemma loop1_closed:
  "AdrImplementation_loop1 s sf = (s - max 0 (min s (sf - 7)), sf - max 0 (min s (sf - 7)))"
proof (induction s sf rule: AdrImplementation_loop1.induct)
  case (1 steps spreadingFactor)
  show ?case
  proof (cases "steps > 0 \<and> spreadingFactor > min_spreadingFactor")
    case True
    then show ?thesis
      using 1 by (subst AdrImplementation_loop1.simps) (auto simp: min_spreadingFactor_def)
  next
    case False
    then show ?thesis
      by (subst AdrImplementation_loop1.simps) (auto simp: min_spreadingFactor_def)
  qed
qed

lemma loop2_closed:
  "AdrImplementation_loop2 s tp =
     (s - max 0 (min s \<lceil>(tp - 2) / 3\<rceil>), tp - 3 * real_of_int (max 0 (min s \<lceil>(tp - 2) / 3\<rceil>)))"
proof (induction s tp rule: AdrImplementation_loop2.induct)
  case (1 steps tp)
  let ?k = "\<lambda>s t. max 0 (min s \<lceil>(t - 2) / 3\<rceil>)"
  show ?case
  proof (cases "steps > 0 \<and> tp > real_of_int min_transmissionPower")
    case True
    have c: "\<lceil>(tp - 3 - 2) / 3\<rceil> = \<lceil>(tp - 2) / 3\<rceil> - 1"
    proof -
      have e: "(tp - 3 - 2) / 3 = (tp - 2) / 3 - 1" by (simp add: field_simps)
      show ?thesis unfolding e by (rule ceiling_diff_one)
    qed
    have p: "1 \<le> \<lceil>(tp - 2) / 3\<rceil>"
      using True by (simp add: min_transmissionPower_def le_ceiling_iff)
    have k: "?k steps tp = 1 + ?k (steps - 1) (tp - 3)"
      using True p unfolding c by (simp add: max_def min_def)
    have "AdrImplementation_loop2 steps tp = AdrImplementation_loop2 (steps - 1) (tp - 3)"
      using True by (subst AdrImplementation_loop2.simps) simp
    also have "\<dots> = (steps - 1 - ?k (steps - 1) (tp - 3), tp - 3 - 3 * real_of_int (?k (steps - 1) (tp - 3)))"
      using 1 True by simp
    also have "\<dots> = (steps - ?k steps tp, tp - 3 * real_of_int (?k steps tp))"
      unfolding k by simp
    finally show ?thesis .
  next
    case False
    from False have "steps \<le> 0 \<or> \<not> tp > 2"
      by (auto simp: min_transmissionPower_def)
    then have "min steps \<lceil>(tp - 2) / 3\<rceil> \<le> 0"
    proof
      assume "steps \<le> 0"
      then show ?thesis by (rule min.coboundedI1)
    next
      assume "\<not> tp > 2"
      then have "\<lceil>(tp - 2) / 3\<rceil> \<le> 0" by (simp add: ceiling_le_iff)
      then show ?thesis by (rule min.coboundedI2)
    qed
    then have k: "?k steps tp = 0"
      by (rule max_absorb1)
    have "AdrImplementation_loop2 steps tp = (steps, tp)"
      using False by (subst AdrImplementation_loop2.simps) auto
    then show ?thesis unfolding k by simp
  qed
qed

lemma loop3_closed:
  "AdrImplementation_loop3 s tp =
     (s + max 0 (min (- s) \<lceil>(14 - tp) / 3\<rceil>), tp + 3 * real_of_int (max 0 (min (- s) \<lceil>(14 - tp) / 3\<rceil>)))"
proof (induction s tp rule: AdrImplementation_loop3.induct)
  case (1 steps tp)
  let ?k = "\<lambda>s t. max 0 (min (- s) \<lceil>(14 - t) / 3\<rceil>)"
  show ?case
  proof (cases "steps < 0 \<and> tp < real_of_int max_transmissionPower")
    case True
    have c: "\<lceil>(14 - (tp + 3)) / 3\<rceil> = \<lceil>(14 - tp) / 3\<rceil> - 1"
    proof -
      have e: "(14 - (tp + 3)) / 3 = (14 - tp) / 3 - 1" by (simp add: field_simps)
      show ?thesis unfolding e by (rule ceiling_diff_one)
    qed
    have p: "1 \<le> \<lceil>(14 - tp) / 3\<rceil>"
      using True by (simp add: max_transmissionPower_def le_ceiling_iff)
    have k: "?k steps tp = 1 + ?k (steps + 1) (tp + 3)"
      using True p unfolding c by (simp add: max_def min_def)
    have "AdrImplementation_loop3 steps tp = AdrImplementation_loop3 (steps + 1) (tp + 3)"
      using True by (subst AdrImplementation_loop3.simps) simp
    also have "\<dots> = (steps + 1 + ?k (steps + 1) (tp + 3), tp + 3 + 3 * real_of_int (?k (steps + 1) (tp + 3)))"
      using 1 True by simp
    also have "\<dots> = (steps + ?k steps tp, tp + 3 * real_of_int (?k steps tp))"
      unfolding k by simp
    finally show ?thesis .
  next
    case False
    from False have "- steps \<le> 0 \<or> \<not> tp < 14"
      by (auto simp: max_transmissionPower_def)
    then have "min (- steps) \<lceil>(14 - tp) / 3\<rceil> \<le> 0"
    proof
      assume "- steps \<le> 0"
      then show ?thesis by (rule min.coboundedI1)
    next
      assume "\<not> tp < 14"
      then have "\<lceil>(14 - tp) / 3\<rceil> \<le> 0" by (simp add: ceiling_le_iff)
      then show ?thesis by (rule min.coboundedI2)
    qed
    then have k: "?k steps tp = 0"
      by (rule max_absorb1)
    have "AdrImplementation_loop3 steps tp = (steps, tp)"
      using False by (subst AdrImplementation_loop3.simps) auto
    then show ?thesis unfolding k by simp
  qed
qed


lemma clip_zero: "(s::int) \<le> 0 \<Longrightarrow> max 0 (min s c) = 0"
  by (simp add: max_def min_def)

lemma clip_mono: "(a::int) \<le> b \<Longrightarrow> max 0 (min a c) \<le> max 0 (min b c)"
  by (simp add: max_def min_def)

lemma clip_le: "(0::int) \<le> s \<Longrightarrow> max 0 (min s c) \<le> s"
  by (simp add: max_def min_def)

lemma clip_rest_mono:
  "(a::int) \<le> b \<Longrightarrow> a - max 0 (min a c) \<le> b - max 0 (min b c)"
  by (simp add: max_def min_def)

lemma steps_nonpos:
  assumes "s \<le> 0"
  shows "AdrImplementation_steps s sf tp =
           (sf, tp + 3 * real_of_int (max 0 (min (- s) \<lceil>(14 - tp) / 3\<rceil>)))"
proof -
  have l1: "AdrImplementation_loop1 s sf = (s, sf)"
    using assms by (subst AdrImplementation_loop1.simps) simp
  have l2: "AdrImplementation_loop2 s tp = (s, tp)"
    using assms by (subst AdrImplementation_loop2.simps) simp
  show ?thesis
    by (simp add: AdrImplementation_steps_def l1 l2 loop3_closed)
qed

lemma steps_nonneg:
  assumes "0 \<le> s"
  shows "AdrImplementation_steps s sf tp =
           (sf - max 0 (min s (sf - 7)),
            tp - 3 * real_of_int (max 0 (min (s - max 0 (min s (sf - 7))) \<lceil>(tp - 2) / 3\<rceil>)))"
proof -
  define k1 where "k1 = max 0 (min s (sf - 7))"
  define k2 where "k2 = max 0 (min (s - k1) \<lceil>(tp - 2) / 3\<rceil>)"
  have "k1 \<le> s" unfolding k1_def using assms by (rule clip_le)
  then have "0 \<le> s - k1" by simp
  then have "k2 \<le> s - k1" unfolding k2_def by (rule clip_le)
  have l1: "AdrImplementation_loop1 s sf = (s - k1, sf - k1)"
    by (simp only: loop1_closed k1_def)
  have l2: "AdrImplementation_loop2 (s - k1) tp = (s - k1 - k2, tp - 3 * real_of_int k2)"
    by (simp only: loop2_closed k2_def)
  have l3: "AdrImplementation_loop3 (s - k1 - k2) t = (s - k1 - k2, t)" for t
    using \<open>k2 \<le> s - k1\<close> by (subst AdrImplementation_loop3.simps) simp
  have "AdrImplementation_steps s sf tp = (sf - k1, tp - 3 * real_of_int k2)"
    by (simp add: AdrImplementation_steps_def l1 l2 l3)
  then show ?thesis
    by (simp only: k1_def k2_def)
qed

lemma steps_mono:
  assumes "s \<le> s'"
  shows "fst (AdrImplementation_steps s' sf tp) \<le> fst (AdrImplementation_steps s sf tp)
       \<and> snd (AdrImplementation_steps s' sf tp) \<le> snd (AdrImplementation_steps s sf tp)"
proof -
  consider (a) "s' \<le> 0" | (b) "s \<le> 0" "0 < s'" | (c) "0 < s"
    by linarith
  then show ?thesis
  proof cases
    case a
    then have s: "s \<le> 0" using assms by simp
    define u where "u = max 0 (min (- s) \<lceil>(14 - tp) / 3\<rceil>)"
    define u' where "u' = max 0 (min (- s') \<lceil>(14 - tp) / 3\<rceil>)"
    have "- s' \<le> - s" using assms by simp
    then have "u' \<le> u"
      unfolding u_def u'_def by (rule clip_mono)
    then have "tp + 3 * real_of_int u' \<le> tp + 3 * real_of_int u"
      by simp
    then show ?thesis
      unfolding steps_nonpos[OF a] steps_nonpos[OF s] fst_conv snd_conv u_def u'_def
      by (rule conjI[OF order_refl])
  next
    case b
    from b(2) have s': "0 \<le> s'" by simp
    define u where "u = max 0 (min (- s) \<lceil>(14 - tp) / 3\<rceil>)"
    define k1' where "k1' = max 0 (min s' (sf - 7))"
    define k2' where "k2' = max 0 (min (s' - k1') \<lceil>(tp - 2) / 3\<rceil>)"
    have "0 \<le> u" unfolding u_def by (rule max.cobounded1)
    moreover have "0 \<le> k1'" unfolding k1'_def by (rule max.cobounded1)
    moreover have "0 \<le> k2'" unfolding k2'_def by (rule max.cobounded1)
    ultimately have "sf - k1' \<le> sf"
      and "tp - 3 * real_of_int k2' \<le> tp + 3 * real_of_int u"
      by simp_all
    then show ?thesis
      unfolding steps_nonpos[OF b(1)] steps_nonneg[OF s'] fst_conv snd_conv u_def k2'_def k1'_def
      by (rule conjI)
  next
    case c
    then have s': "0 \<le> s'" and s: "0 \<le> s" using assms by simp_all
    define k1 where "k1 = max 0 (min s (sf - 7))"
    define k1' where "k1' = max 0 (min s' (sf - 7))"
    define k2 where "k2 = max 0 (min (s - k1) \<lceil>(tp - 2) / 3\<rceil>)"
    define k2' where "k2' = max 0 (min (s' - k1') \<lceil>(tp - 2) / 3\<rceil>)"
    have 1: "k1 \<le> k1'"
      unfolding k1_def k1'_def using assms by (rule clip_mono)
    have 2: "s - k1 \<le> s' - k1'"
      unfolding k1_def k1'_def using assms by (rule clip_rest_mono)
    have 3: "k2 \<le> k2'"
      unfolding k2_def k2'_def using 2 by (rule clip_mono)
    have "sf - k1' \<le> sf - k1" and "tp - 3 * real_of_int k2' \<le> tp - 3 * real_of_int k2"
      using 1 3 by simp_all
    then show ?thesis
      unfolding steps_nonneg[OF s] steps_nonneg[OF s'] fst_conv snd_conv k2_def k2'_def k1_def k1'_def
      by (rule conjI)
  qed
qed

lemma steps_grid:
  assumes "7 \<le> sf" "sf \<le> 12" "tp \<in> {2, 5, 8, 11, 14}"
  shows "AdrImplementation_steps s sf (real_of_int tp) =
           (if s > 0
            then (max 7 (sf - s), real_of_int (max 2 (tp - 3 * (s - (sf - max 7 (sf - s))))))
            else (sf, real_of_int (min 14 (tp - 3 * s))))"
proof -
  have c2: "\<lceil>(real_of_int tp - 2) / 3\<rceil> = (tp - 2) div 3"
    using assms(3) by auto
  have c3: "\<lceil>(14 - real_of_int tp) / 3\<rceil> = (14 - tp) div 3"
    using assms(3) by auto
  show ?thesis
  proof (cases "s > 0")
    case True
    then have s: "0 \<le> s" by simp
    have k1: "sf - max 0 (min s (sf - 7)) = max 7 (sf - s)"
      using assms True by (simp add: max_def min_def)
    have l: "s - max 0 (min s (sf - 7)) = s - (sf - max 7 (sf - s))"
      using k1 by simp
    have "tp - 3 * max 0 (min (s - (sf - max 7 (sf - s))) ((tp - 2) div 3))
            = max 2 (tp - 3 * (s - (sf - max 7 (sf - s))))"
      using assms(3) by (auto simp: max_def min_def)
    then have "real_of_int tp - 3 * real_of_int (max 0 (min (s - (sf - max 7 (sf - s))) ((tp - 2) div 3)))
            = real_of_int (max 2 (tp - 3 * (s - (sf - max 7 (sf - s)))))"
      by (metis of_int_diff of_int_mult of_int_numeral)
    then show ?thesis
      using True by (simp add: steps_nonneg[OF s] c2 k1 l)
  next
    case False
    then have s: "s \<le> 0" by simp
    have "tp + 3 * max 0 (min (- s) ((14 - tp) div 3)) = min 14 (tp - 3 * s)"
      using assms(3) s by (auto simp: max_def min_def)
    then have "real_of_int tp + 3 * real_of_int (max 0 (min (- s) ((14 - tp) div 3)))
                 = real_of_int (min 14 (tp - 3 * s))"
      by (metis of_int_add of_int_mult of_int_numeral)
    then show ?thesis
      using False by (simp add: steps_nonpos[OF s] c3)
  qed
qed

subsection \<open>The decision on the example device, and the data rate\<close>

lemma packetSNR_example_packet:
  "tpAveraging this \<Longrightarrow> packetSNR this (example_packet p) = Inr (p + noise_const)"
  by (simp add: packetSNR_def GetReceivedPower_def GetAverageTxFromGateways_def
      TxPowerToSNR_eq example_packet_def)

lemma GetAverageSNR_replicate:
  assumes "packetSNR this it = Inr x" "0 < n" "n \<le> k"
  shows "GetAverageSNR this (replicate k it) n = Inr (x / real n)"
  using assms by (simp add: GetAverageSNR_def GetAverageSNR_loop_replicate)

lemma m_SNR_example:
  "AdrImplementation_m_SNR AdrComponent_default (example_status\<lparr>firstReceiveWindowSpreadingFactor := sf, transmissionPower := tp\<rparr>)
     = Inr ((- 80 + noise_const) / 20)"
proof -
  have "packetSNR AdrComponent_default (example_packet (- 80)) = Inr (- 80 + noise_const)"
    by (rule packetSNR_example_packet) (simp add: AdrComponent_default_def)
  then have "GetAverageSNR AdrComponent_default (replicate 20 (example_packet (- 80))) 20
               = Inr ((- 80 + noise_const) / real 20)"
    by (rule GetAverageSNR_replicate) simp_all
  then show ?thesis
    by (simp add: AdrImplementation_m_SNR_def AdrComponent_default_def example_status_def)
qed

lemma treshold_at_SfToDr:
  "treshold_at (SfToDr sf) =
     (if 7 \<le> sf \<and> sf \<le> 12 then Inr (treshold ! nat (sf - 7)) else Inl IndexOutOfBounds)"
  by (auto simp: treshold_at_def SfToDr_def treshold_def)

lemma double_to_int_of_int:
  "- (2 ^ 31) \<le> i \<Longrightarrow> i < 2 ^ 31 \<Longrightarrow> double_to_int (real_of_int i) = Inr i"
  by (simp add: double_to_int_def)

lemma nsteps_example: "AdrImplementation_nsteps AdrComponent_default example_status = Inr 3"
proof -
  have m: "AdrImplementation_m_SNR AdrComponent_default example_status = Inr ((- 80 + noise_const) / 20)"
    using m_SNR_example[where sf=7 and tp=14] by (simp add: example_status_def)
  have t: "treshold_at (SfToDr (firstReceiveWindowSpreadingFactor example_status)) = Inr (- 20)"
    by (simp add: treshold_at_SfToDr example_status_def treshold_def)
  have "\<lfloor>((- 80 + noise_const) / 20 - (- 20) - real_of_int offset) / 3\<rfloor> = 3"
    using noise_const_lower noise_const_upper
    by (intro floor_unique) (simp_all add: offset_def)
  then show ?thesis
    by (simp add: AdrImplementation_nsteps_def m t Let_def double_to_int_def)
qed

lemma final_example: "AdrImplementation_final AdrComponent_default example_status = Inr (7, 5)"
proof -
  have "AdrImplementation_steps 3 7 (real_of_int 14) = (7, 5)"
    by (subst steps_grid) simp_all
  moreover have "firstReceiveWindowSpreadingFactor example_status = 7"
    and "transmissionPower example_status = 14"
    by (simp_all add: example_status_def)
  ultimately show ?thesis
    by (simp add: AdrImplementation_final_def nsteps_example)
qed

lemma AdrImplementation_example: "AdrImplementation AdrComponent_default example_status = Inr (0, 5)"
proof -
  have "double_to_int (real_of_int 5) = Inr 5"
    by (rule double_to_int_of_int) simp_all
  then show ?thesis
    by (simp add: AdrImplementation_def final_example SfToDr_def)
qed

text \<open>
  Claim C1 says that the data rate is 12 minus the spreading factor, so that a device at
  spreading factor 7 has data rate 5 and the required SNR -7.5 dB. \<^verbatim>\<open>SfToDr\<close> returns
  \<open>sf - 7\<close> instead: at spreading factor 7 the data rate is 0, and the entry read from the
  table is -20 dB. On the example device (twenty packets at -80 dBm, spreading factor 7,
  14 dBm) the staged command is data rate 0 and 5 dBm, where the specification expects
  data rate 5 and 2 dBm.
\<close>

theorem C1_data_rate_is_sf_minus_7:
  "SfToDr 7 = 0 \<and> SfToDr 7 \<noteq> 12 - 7
   \<and> treshold_at (SfToDr 7) = Inr (- 20) \<and> treshold_at (12 - 7) = Inr (- 15 / 2)
   \<and> AdrImplementation AdrComponent_default example_status = Inr (0, 5)"
  by (simp add: AdrImplementation_example treshold_at_SfToDr) (simp add: SfToDr_def treshold_at_def treshold_def)

text \<open>
  Claim C5 says that the index into the table is clamped to 0..5 for every spreading
  factor. It is not: at spreading factor 13 the index is 6, and the read is out of bounds.
\<close>

theorem C5_no_clamping_counterexample:
  "SfToDr 13 = 6 \<and> \<not> (0 \<le> SfToDr 13 \<and> SfToDr 13 \<le> 5)
   \<and> treshold_at (SfToDr 13) = Inl IndexOutOfBounds
   \<and> AdrImplementation AdrComponent_default
        (example_status\<lparr>firstReceiveWindowSpreadingFactor := 13\<rparr>) = Inl IndexOutOfBounds"
proof -
  have "AdrImplementation_m_SNR AdrComponent_default (example_status\<lparr>firstReceiveWindowSpreadingFactor := 13\<rparr>)
     = Inr ((- 80 + noise_const) / 20)"
    using m_SNR_example[where sf=13 and tp=14] by (simp add: example_status_def)
  then have "AdrImplementation AdrComponent_default
        (example_status\<lparr>firstReceiveWindowSpreadingFactor := 13\<rparr>) = Inl IndexOutOfBounds"
    by (simp add: AdrImplementation_def AdrImplementation_final_def AdrImplementation_nsteps_def
        treshold_at_SfToDr)
  then show ?thesis
    by (simp add: treshold_at_SfToDr) (simp add: SfToDr_def)
qed

text \<open>
  Claim C5, amended: the index is \<open>sf - 7\<close>, not clamped; it lies in 0..5, and the read
  has a value, exactly for the spreading factors 7 to 12.
\<close>

theorem C5_index_in_bounds_iff:
  "treshold_at (SfToDr sf) =
     (if 7 \<le> sf \<and> sf \<le> 12 then Inr (treshold ! nat (sf - 7)) else Inl IndexOutOfBounds)
   \<and> ((0 \<le> SfToDr sf \<and> SfToDr sf \<le> 5) = (7 \<le> sf \<and> sf \<le> 12))"
proof -
  have "(0 \<le> SfToDr sf \<and> SfToDr sf \<le> 5) = (7 \<le> sf \<and> sf \<le> 12)"
    by (auto simp: SfToDr_def)
  then show ?thesis
    by (simp only: treshold_at_SfToDr simp_thms)
qed

subsection \<open>The average and the maximum over the gateways\<close>

lemma GetAverageTxFromGateways_loop_sum:
  "GetAverageTxFromGateways_loop gwl sm = sm + sum_list (map (\<lambda>it. rxPower (snd it)) gwl)"
  by (induction gwl arbitrary: sm) simp_all

lemma GetAverageTxFromGateways_mean:
  "GetAverageTxFromGateways gwl =
     (if gwl = [] then Inl DivisionByZero
      else Inr (sum_list (map (\<lambda>it. rxPower (snd it)) gwl) / real (length gwl)))"
  by (simp add: GetAverageTxFromGateways_def GetAverageTxFromGateways_loop_sum)

text \<open>
  Claim C4 says that the average over the gateways has a fallback value for a packet
  without gateway reports. It has none: the sum 0 is divided by the size 0.
\<close>

theorem C4_empty_gateway_list_counterexample:
  "GetAverageTxFromGateways [] = Inl DivisionByZero
   \<and> GetReceivedPower AdrComponent_default [] = Inl DivisionByZero
   \<and> packetSNR AdrComponent_default (0, \<lparr>gwList = []\<rparr>) = Inl DivisionByZero
   \<and> \<not> (\<exists>v. GetAverageTxFromGateways [] = Inr v)"
  by (simp add: GetAverageTxFromGateways_mean GetReceivedPower_def packetSNR_def AdrComponent_default_def)

text \<open>
  Claim C4, amended: for a packet with at least one gateway report the average path
  returns the sum of the reported powers divided by their number; for a packet without
  reports it divides by zero, and no fallback value is produced.
\<close>

theorem C4_average_of_nonempty_list:
  "GetAverageTxFromGateways gwl =
     (if gwl = [] then Inl DivisionByZero
      else Inr (sum_list (map (\<lambda>it. rxPower (snd it)) gwl) / real (length gwl)))"
  by (rule GetAverageTxFromGateways_mean)

lemma GetMaxTxFromGateways_loop_Max:
  "GetMaxTxFromGateways_loop gwl mx = Max (insert mx ((\<lambda>it. rxPower (snd it)) ` set gwl))"
proof (induction gwl arbitrary: mx)
  case Nil
  show ?case by simp
next
  case (Cons it rest)
  have "Max (insert (max mx (rxPower (snd it))) ((\<lambda>it. rxPower (snd it)) ` set rest))
          = Max (insert mx (insert (rxPower (snd it)) ((\<lambda>it. rxPower (snd it)) ` set rest)))"
    by (cases "rest = []") (simp_all add: max.assoc)
  moreover have "(if rxPower (snd it) > mx then rxPower (snd it) else mx) = max mx (rxPower (snd it))"
    by (simp add: max_def)
  ultimately show ?case
    using Cons.IH[of "max mx (rxPower (snd it))"] by simp
qed

text \<open>
  Claim C9: \<^verbatim>\<open>GetMaxTxFromGateways\<close> returns the maximum of 2 dBm
  (\<^verbatim>\<open>min_transmissionPower\<close>) and the reported powers, so it returns at least 2 dBm, and
  exactly 2 dBm when every gateway reports less.
\<close>

theorem C9_max_gateway_floor:
  "real_of_int min_transmissionPower = 2
   \<and> GetMaxTxFromGateways gwl = Max (insert 2 ((\<lambda>it. rxPower (snd it)) ` set gwl))
   \<and> 2 \<le> GetMaxTxFromGateways gwl
   \<and> ((\<forall>it \<in> set gwl. rxPower (snd it) < 2) \<longrightarrow> GetMaxTxFromGateways gwl = 2)"
proof -
  have m: "GetMaxTxFromGateways gwl = Max (insert 2 ((\<lambda>it. rxPower (snd it)) ` set gwl))"
    by (simp add: GetMaxTxFromGateways_def GetMaxTxFromGateways_loop_Max min_transmissionPower_def)
  have "2 \<le> GetMaxTxFromGateways gwl"
    unfolding m by (rule Max_ge) simp_all
  moreover have "GetMaxTxFromGateways gwl = 2" if "\<forall>it \<in> set gwl. rxPower (snd it) < 2"
    unfolding m using that by (intro Max_eqI) auto
  ultimately show ?thesis
    using m by (simp add: min_transmissionPower_def)
qed

theorem C9_max_gateway_floor_witness:
  "list_all (\<lambda>it. rxPower (snd it) < 2) [(0::nat, \<lparr>rxPower = - 80\<rparr>), (1, \<lparr>rxPower = - 95\<rparr>)]
   \<and> GetMaxTxFromGateways [(0, \<lparr>rxPower = - 80\<rparr>), (1, \<lparr>rxPower = - 95\<rparr>)] = 2"
  using C9_max_gateway_floor[of "[(0, \<lparr>rxPower = - 80\<rparr>), (1, \<lparr>rxPower = - 95\<rparr>)]"]
  by simp

subsection \<open>The history loops\<close>

lemma GetMaxSNR_loop_Inr:
  "GetMaxSNR_loop this its n mx = Inr v \<Longrightarrow>
     mx \<le> v \<and> n \<le> length its
     \<and> (\<forall>it \<in> set (take n its). \<exists>x. packetSNR this it = Inr x \<and> x \<le> v)
     \<and> (v = mx \<or> (\<exists>it \<in> set (take n its). packetSNR this it = Inr v))"
proof (induction this its n mx rule: GetMaxSNR_loop.induct)
  case (1 this its mx)
  then show ?case by simp
next
  case (2 this n mx)
  then show ?case by simp
next
  case (3 this it its n mx)
  from "3.prems" obtain m where m: "packetSNR this it = Inr m"
    by (auto split: sum.splits)
  define mx' where "mx' = (if m > mx then m else mx)"
  from "3.prems" m have r: "GetMaxSNR_loop this its n mx' = Inr v"
    by (simp add: mx'_def)
  from "3.IH"[OF m r[unfolded mx'_def]]
  have ih: "mx' \<le> v" "n \<le> length its"
    "\<forall>it \<in> set (take n its). \<exists>x. packetSNR this it = Inr x \<and> x \<le> v"
    "v = mx' \<or> (\<exists>it \<in> set (take n its). packetSNR this it = Inr v)"
    by (simp_all add: mx'_def)
  have a: "mx \<le> v" "m \<le> v"
    using ih(1) by (simp_all add: mx'_def split: if_splits)
  have b: "v = mx \<or> (\<exists>it' \<in> set (take (Suc n) (it # its)). packetSNR this it' = Inr v)"
    using ih(4) m by (auto simp: mx'_def split: if_splits)
  show ?case
    using a b ih(2,3) m by simp
qed

lemma GetMaxSNR_loop_Inl:
  "GetMaxSNR_loop this its n mx = Inl f \<Longrightarrow>
     (length its < n \<and> f = IteratorOutOfRange)
     \<or> (\<exists>it \<in> set (take n its). packetSNR this it = Inl f)"
proof (induction this its n mx rule: GetMaxSNR_loop.induct)
  case (1 this its mx)
  then show ?case by simp
next
  case (2 this n mx)
  then show ?case by simp
next
  case (3 this it its n mx)
  show ?case
  proof (cases "packetSNR this it")
    case (Inl g)
    with "3.prems" show ?thesis by simp
  next
    case (Inr m)
    with "3.prems" have "GetMaxSNR_loop this its n (if m > mx then m else mx) = Inl f"
      by simp
    from "3.IH"[OF Inr this] show ?thesis by auto
  qed
qed


lemma GetAverageSNR_loop_Inr:
  "GetAverageSNR_loop this its n sm m = Inr (sm', m') \<Longrightarrow>
     n \<le> length its
     \<and> (if n = 0 then m' = m
         else \<exists>x. m' = Some x \<and> packetSNR this (its ! (n - 1)) = Inr x)"
proof (induction this its n sm m rule: GetAverageSNR_loop.induct)
  case (1 this its sm m)
  then show ?case by simp
next
  case (2 this n sm m)
  then show ?case by simp
next
  case (3 this it its n sm m)
  from "3.prems" obtain x where x: "packetSNR this it = Inr x"
    by (auto split: sum.splits)
  with "3.prems" have r: "GetAverageSNR_loop this its n (sm + x) (Some x) = Inr (sm', m')"
    by simp
  from "3.IH"[OF x r] have ih: "n \<le> length its"
    "n = 0 \<Longrightarrow> m' = Some x"
    "\<And>k. n = Suc k \<Longrightarrow> \<exists>y. m' = Some y \<and> packetSNR this (its ! k) = Inr y"
    by (auto split: if_splits)
  show ?case
  proof (cases n)
    case 0
    with ih(1,2) x show ?thesis by simp
  next
    case (Suc k)
    with ih(1) ih(3)[OF Suc] show ?thesis by simp
  qed
qed

lemma GetAverageSNR_loop_Inl:
  "GetAverageSNR_loop this its n sm m = Inl f \<Longrightarrow>
     (length its < n \<and> f = IteratorOutOfRange)
     \<or> (\<exists>it \<in> set (take n its). packetSNR this it = Inl f)"
proof (induction this its n sm m rule: GetAverageSNR_loop.induct)
  case (1 this its sm m)
  then show ?case by simp
next
  case (2 this n sm m)
  then show ?case by simp
next
  case (3 this it its n sm m)
  show ?case
  proof (cases "packetSNR this it")
    case (Inl g)
    with "3.prems" show ?thesis by simp
  next
    case (Inr x)
    with "3.prems" have "GetAverageSNR_loop this its n (sm + x) (Some x) = Inl f"
      by simp
    from "3.IH"[OF Inr this] show ?thesis by auto
  qed
qed

text \<open>The aggregated SNR, when every packet of the window has a per-packet SNR.\<close>

lemma GetAverageSNR_Inr:
  assumes "0 < n" "n \<le> length pl"
    and "\<forall>it \<in> set (take n (rev pl)). \<exists>x. packetSNR this it = Inr x"
  shows "\<exists>x. packetSNR this (rev pl ! (n - 1)) = Inr x \<and> GetAverageSNR this pl n = Inr (x / real n)"
proof (cases "GetAverageSNR_loop this (rev pl) n 0 None")
  case (Inl f)
  from GetAverageSNR_loop_Inl[OF this] assms show ?thesis by auto
next
  case (Inr r)
  obtain sm' m' where r: "r = (sm', m')" by (cases r)
  from GetAverageSNR_loop_Inr[OF Inr[unfolded r]] assms(1)
  obtain x where "m' = Some x" "packetSNR this (rev pl ! (n - 1)) = Inr x"
    by auto
  then show ?thesis
    using assms(1) by (simp add: GetAverageSNR_def Inr r)
qed

lemma GetMaxSNR_Inr:
  assumes "n \<le> length pl"
    and "\<forall>it \<in> set (take n (rev pl)). \<exists>x. packetSNR this it = Inr x"
  shows "\<exists>v. GetMaxSNR this pl n = Inr v
     \<and> TxPowerToSNR (real_of_int min_transmissionPower) \<le> v
     \<and> (\<forall>it \<in> set (take n (rev pl)). \<exists>x. packetSNR this it = Inr x \<and> x \<le> v)
     \<and> (v = TxPowerToSNR (real_of_int min_transmissionPower)
         \<or> (\<exists>it \<in> set (take n (rev pl)). packetSNR this it = Inr v))"
proof (cases "GetMaxSNR this pl n")
  case (Inl f)
  then have "GetMaxSNR_loop this (rev pl) n (TxPowerToSNR (real_of_int min_transmissionPower)) = Inl f"
    by (simp add: GetMaxSNR_def)
  from GetMaxSNR_loop_Inl[OF this] assms show ?thesis by auto
next
  case (Inr v)
  then have "GetMaxSNR_loop this (rev pl) n (TxPowerToSNR (real_of_int min_transmissionPower)) = Inr v"
    by (simp add: GetMaxSNR_def)
  from GetMaxSNR_loop_Inr[OF this] show ?thesis
    unfolding Inr by simp
qed

text \<open>Bounds on the per-packet SNR of a packet with bounded reports.\<close>

lemma sum_list_abs_bound:
  "\<forall>g \<in> set gwl. \<bar>rxPower (snd g)\<bar> \<le> M \<Longrightarrow>
   \<bar>sum_list (map (\<lambda>it. rxPower (snd it)) gwl)\<bar> \<le> M * real (length gwl)"
proof (induction gwl)
  case Nil
  show ?case by simp
next
  case (Cons g gwl)
  then have "\<bar>rxPower (snd g)\<bar> \<le> M"
    and "\<bar>sum_list (map (\<lambda>it. rxPower (snd it)) gwl)\<bar> \<le> M * real (length gwl)"
    by simp_all
  then show ?case by (simp add: algebra_simps)
qed

lemma GetAverageTxFromGateways_bound:
  assumes "gwl \<noteq> []" "\<forall>g \<in> set gwl. \<bar>rxPower (snd g)\<bar> \<le> M"
  shows "\<exists>p. GetAverageTxFromGateways gwl = Inr p \<and> \<bar>p\<bar> \<le> M"
proof -
  let ?s = "sum_list (map (\<lambda>it. rxPower (snd it)) gwl)"
  have l: "0 < real (length gwl)" using assms(1) by simp
  have "\<bar>?s\<bar> \<le> M * real (length gwl)"
    using assms(2) by (rule sum_list_abs_bound)
  then have "\<bar>?s\<bar> / real (length gwl) \<le> M"
    using l by (simp add: divide_le_eq)
  then have "\<bar>?s / real (length gwl)\<bar> \<le> M"
    by simp
  then show ?thesis
    using assms(1) by (simp add: GetAverageTxFromGateways_mean)
qed

lemma GetMaxTxFromGateways_bound:
  assumes "\<forall>g \<in> set gwl. \<bar>rxPower (snd g)\<bar> \<le> M" "2 \<le> M"
  shows "2 \<le> GetMaxTxFromGateways gwl \<and> GetMaxTxFromGateways gwl \<le> M"
proof -
  have m: "GetMaxTxFromGateways gwl = Max (insert 2 ((\<lambda>it. rxPower (snd it)) ` set gwl))"
    by (simp add: GetMaxTxFromGateways_def GetMaxTxFromGateways_loop_Max min_transmissionPower_def)
  have "2 \<le> GetMaxTxFromGateways gwl"
    unfolding m by (rule Max_ge) simp_all
  moreover have "GetMaxTxFromGateways gwl \<le> M"
    unfolding m using assms by (subst Max_le_iff) auto
  ultimately show ?thesis ..
qed

lemma packetSNR_bound:
  assumes "gwList (snd it) \<noteq> []" "\<forall>g \<in> set (gwList (snd it)). \<bar>rxPower (snd g)\<bar> \<le> 1000"
  shows "\<exists>x. packetSNR this it = Inr x \<and> \<bar>x\<bar> \<le> 1300"
proof (cases "tpAveraging this")
  case True
  from GetAverageTxFromGateways_bound[OF assms]
  obtain p where "GetAverageTxFromGateways (gwList (snd it)) = Inr p" "\<bar>p\<bar> \<le> 1000"
    by blast
  then show ?thesis
    using True noise_const_lower noise_const_upper
    by (simp add: packetSNR_def GetReceivedPower_def TxPowerToSNR_eq)
next
  case False
  from GetMaxTxFromGateways_bound[OF assms(2)]
  have "2 \<le> GetMaxTxFromGateways (gwList (snd it))" "GetMaxTxFromGateways (gwList (snd it)) \<le> 1000"
    by simp_all
  then show ?thesis
    using False noise_const_lower noise_const_upper
    by (simp add: packetSNR_def GetReceivedPower_def TxPowerToSNR_eq)
qed

lemma m_SNR_defined:
  assumes "well_formed this status"
  shows "\<exists>m. AdrImplementation_m_SNR this status = Inr m \<and> \<bar>m\<bar> \<le> 1300"
proof -
  let ?n = "historyRange this" and ?pl = "receivedPacketList status"
  from assms have n: "0 < ?n" "?n \<le> length ?pl"
    by (simp_all add: well_formed_def)
  have w: "\<forall>it \<in> set (take ?n (rev ?pl)). \<exists>x. packetSNR this it = Inr x \<and> \<bar>x\<bar> \<le> 1300"
  proof
    fix it assume "it \<in> set (take ?n (rev ?pl))"
    with assms have "gwList (snd it) \<noteq> []"
      and "\<forall>g \<in> set (gwList (snd it)). \<bar>rxPower (snd g)\<bar> \<le> 1000"
      by (simp_all add: well_formed_def)
    then show "\<exists>x. packetSNR this it = Inr x \<and> \<bar>x\<bar> \<le> 1300"
      by (rule packetSNR_bound)
  qed
  then have d: "\<forall>it \<in> set (take ?n (rev ?pl)). \<exists>x. packetSNR this it = Inr x"
    by blast
  show ?thesis
  proof (cases "historyAveraging this")
    case True
    from GetAverageSNR_Inr[OF n d]
    obtain x where x: "packetSNR this (rev ?pl ! (?n - 1)) = Inr x"
      "GetAverageSNR this ?pl ?n = Inr (x / real ?n)"
      by blast
    have "take ?n (rev ?pl) ! (?n - 1) = rev ?pl ! (?n - 1)"
      using n by simp
    moreover have "?n - 1 < length (take ?n (rev ?pl))"
      using n by simp
    ultimately have "rev ?pl ! (?n - 1) \<in> set (take ?n (rev ?pl))"
      by (metis nth_mem)
    with w x(1) have "\<bar>x\<bar> \<le> 1300" by auto
    moreover have "\<bar>x / real ?n\<bar> \<le> \<bar>x\<bar>"
      using n(1) by (simp add: divide_le_eq mult_le_cancel_left1)
    ultimately show ?thesis
      using True x(2) by (simp add: AdrImplementation_m_SNR_def)
  next
    case False
    from GetMaxSNR_Inr[OF n(2) d]
    obtain v where v: "GetMaxSNR this ?pl ?n = Inr v"
      "TxPowerToSNR (real_of_int min_transmissionPower) \<le> v"
      "v = TxPowerToSNR (real_of_int min_transmissionPower)
         \<or> (\<exists>it \<in> set (take ?n (rev ?pl)). packetSNR this it = Inr v)"
      by blast
    have "\<bar>TxPowerToSNR (real_of_int min_transmissionPower)\<bar> \<le> 1300"
      using noise_const_lower noise_const_upper
      by (simp add: TxPowerToSNR_eq min_transmissionPower_def)
    with v(3) w have "\<bar>v\<bar> \<le> 1300" by auto
    then show ?thesis
      using False v(1) by (simp add: AdrImplementation_m_SNR_def)
  qed
qed

subsection \<open>The floor of the history maximum\<close>

lemma TxPowerToSNR_floor_bounds:
  "119 < TxPowerToSNR 2" "TxPowerToSNR 2 < 11904 / 100"
  using noise_const_lower noise_const_upper by (simp_all add: TxPowerToSNR_eq)

text \<open>
  Claim C10: \<^verbatim>\<open>GetMaxSNR\<close> starts its running maximum at \<^verbatim>\<open>TxPowerToSNR(2)\<close>, which is
  \<open>2 + 174 - 10 * log10(125000) - 6\<close>, between 119 and 119.04 dB. Whenever it returns, the
  result is at least that value, and equal to it when every per-packet SNR of the window
  is below it. It returns unless the history is shorter than the window or a packet of
  the window has no per-packet SNR.
\<close>

theorem C10_max_history_floor:
  "TxPowerToSNR (real_of_int min_transmissionPower) = 2 + 174 - 10 * log 10 125000 - 6
   \<and> 119 < TxPowerToSNR (real_of_int min_transmissionPower)
   \<and> TxPowerToSNR (real_of_int min_transmissionPower) < 11904 / 100
   \<and> (case GetMaxSNR this packetList hRange of
         Inr v \<Rightarrow>
           TxPowerToSNR (real_of_int min_transmissionPower) \<le> v
           \<and> ((\<forall>it \<in> set (take hRange (rev packetList)).
                  \<forall>x. packetSNR this it = Inr x \<longrightarrow> x < TxPowerToSNR (real_of_int min_transmissionPower))
                \<longrightarrow> v = TxPowerToSNR (real_of_int min_transmissionPower))
       | Inl f \<Rightarrow>
           length packetList < hRange
           \<or> (\<exists>it \<in> set (take hRange (rev packetList)). packetSNR this it = Inl f))"
proof -
  let ?fl = "TxPowerToSNR (real_of_int min_transmissionPower)"
  have e: "?fl = 2 + 174 - 10 * log 10 125000 - 6"
    by (simp add: TxPowerToSNR_def min_transmissionPower_def B_def NF_def)
  have b: "119 < ?fl" "?fl < 11904 / 100"
    using TxPowerToSNR_floor_bounds by (simp_all add: min_transmissionPower_def)
  have c: "(case GetMaxSNR this packetList hRange of
         Inr v \<Rightarrow>
           ?fl \<le> v
           \<and> ((\<forall>it \<in> set (take hRange (rev packetList)).
                  \<forall>x. packetSNR this it = Inr x \<longrightarrow> x < ?fl)
                \<longrightarrow> v = ?fl)
       | Inl f \<Rightarrow>
           length packetList < hRange
           \<or> (\<exists>it \<in> set (take hRange (rev packetList)). packetSNR this it = Inl f))"
  proof (cases "GetMaxSNR this packetList hRange")
    case (Inl f)
    then have "GetMaxSNR_loop this (rev packetList) hRange ?fl = Inl f"
      by (simp add: GetMaxSNR_def)
    from GetMaxSNR_loop_Inl[OF this] show ?thesis
      unfolding Inl by auto
  next
    case (Inr v)
    then have "GetMaxSNR_loop this (rev packetList) hRange ?fl = Inr v"
      by (simp add: GetMaxSNR_def)
    from GetMaxSNR_loop_Inr[OF this]
    have "?fl \<le> v"
      and "v = ?fl \<or> (\<exists>it \<in> set (take hRange (rev packetList)). packetSNR this it = Inr v)"
      by simp_all
    then show ?thesis
      unfolding Inr by fastforce
  qed
  from e b c show ?thesis by (simp only: simp_thms)
qed

text \<open>
  Claim C10 on two packets heard at -95 and -80 dBm (per-packet SNR about 22 and 37 dB):
  the maximum over the history is the floor, about 119 dB.
\<close>

theorem C10_max_history_floor_witness:
  "GetMaxSNR \<lparr>tpAveraging = True, historyRange = 2, historyAveraging = False\<rparr>
     [example_packet (- 95), example_packet (- 80)] 2 = Inr (TxPowerToSNR 2)
   \<and> packetSNR \<lparr>tpAveraging = True, historyRange = 2, historyAveraging = False\<rparr>
        (example_packet (- 80)) = Inr (TxPowerToSNR (- 80))
   \<and> packetSNR \<lparr>tpAveraging = True, historyRange = 2, historyAveraging = False\<rparr>
        (example_packet (- 95)) = Inr (TxPowerToSNR (- 95))
   \<and> TxPowerToSNR (- 80) < TxPowerToSNR 2 \<and> TxPowerToSNR (- 95) < TxPowerToSNR 2"
proof -
  let ?c = "\<lparr>tpAveraging = True, historyRange = 2, historyAveraging = False\<rparr>"
  have p: "packetSNR ?c (example_packet p) = Inr (TxPowerToSNR p)" for p
    by (simp add: packetSNR_example_packet TxPowerToSNR_eq)
  have lt: "TxPowerToSNR p < TxPowerToSNR 2" if "p < 2" for p
    using that by (simp add: TxPowerToSNR_eq)
  have "\<exists>v. GetMaxSNR ?c [example_packet (- 95), example_packet (- 80)] 2 = Inr v"
    by (simp add: GetMaxSNR_def packetSNR_example_packet numeral_2_eq_2)
  then obtain v where v: "GetMaxSNR ?c [example_packet (- 95), example_packet (- 80)] 2 = Inr v"
    by blast
  have "v = TxPowerToSNR 2"
    using C10_max_history_floor[where this = ?c
        and packetList = "[example_packet (- 95), example_packet (- 80)]" and hRange = 2]
    unfolding v by (simp add: p lt min_transmissionPower_def)
  with v show ?thesis by (simp add: p lt)
qed

subsection \<open>The average over the history, and the conversion on the maximum path\<close>

lemma packetSNR_example_default:
  "packetSNR AdrComponent_default (example_packet p) = Inr (TxPowerToSNR p)"
  by (simp add: packetSNR_example_packet AdrComponent_default_def TxPowerToSNR_eq)

lemma GetAverageSNR_loop_append_last:
  assumes "packetSNR this it = Inr x" "packetSNR this it' = Inr y"
  shows "GetAverageSNR_loop this (replicate k it @ [it']) (Suc k) sm m =
           Inr (sm + real k * x + y, Some y)"
  using assms by (induction k arbitrary: sm m) (simp_all add: algebra_simps)

text \<open>
  Claim C2 says that \<^verbatim>\<open>GetAverageSNR\<close> returns the mean of the per-packet SNR over the
  window. The loop does add them up, but the function returns the last \<^verbatim>\<open>m_SNR\<close> divided
  by \<^verbatim>\<open>historyRange\<close>. On a history of twenty packets, the oldest heard at -100 dBm and
  the others at -80 dBm, the sum is as expected, the result is the SNR of the oldest packet
  divided by 20 (below 1 dB), and the mean is above 36 dB.
\<close>

theorem C2_average_divides_last_sample:
  "packetSNR AdrComponent_default (example_packet (- 100)) = Inr (TxPowerToSNR (- 100))
   \<and> packetSNR AdrComponent_default (example_packet (- 80)) = Inr (TxPowerToSNR (- 80))
   \<and> GetAverageSNR_loop AdrComponent_default
         (rev (example_packet (- 100) # replicate 19 (example_packet (- 80)))) 20 0 None
       = Inr (19 * TxPowerToSNR (- 80) + TxPowerToSNR (- 100), Some (TxPowerToSNR (- 100)))
   \<and> GetAverageSNR AdrComponent_default
         (example_packet (- 100) # replicate 19 (example_packet (- 80))) 20
       = Inr (TxPowerToSNR (- 100) / 20)
   \<and> TxPowerToSNR (- 100) / 20 \<noteq> (19 * TxPowerToSNR (- 80) + TxPowerToSNR (- 100)) / 20
   \<and> TxPowerToSNR (- 100) / 20 < 1
   \<and> 36 < (19 * TxPowerToSNR (- 80) + TxPowerToSNR (- 100)) / 20"
proof -
  have l: "GetAverageSNR_loop AdrComponent_default
         (rev (example_packet (- 100) # replicate 19 (example_packet (- 80)))) 20 0 None
       = Inr (19 * TxPowerToSNR (- 80) + TxPowerToSNR (- 100), Some (TxPowerToSNR (- 100)))"
  proof -
    have "GetAverageSNR_loop AdrComponent_default
            (replicate 19 (example_packet (- 80)) @ [example_packet (- 100)]) (Suc 19) 0 None
          = Inr (0 + real 19 * TxPowerToSNR (- 80) + TxPowerToSNR (- 100), Some (TxPowerToSNR (- 100)))"
      by (rule GetAverageSNR_loop_append_last) (rule packetSNR_example_default)+
    then show ?thesis by simp
  qed
  have g: "GetAverageSNR AdrComponent_default
         (example_packet (- 100) # replicate 19 (example_packet (- 80))) 20
       = Inr (TxPowerToSNR (- 100) / 20)"
    unfolding GetAverageSNR_def l by simp
  have n: "TxPowerToSNR (- 100) / 20 < 1"
    "36 < (19 * TxPowerToSNR (- 80) + TxPowerToSNR (- 100)) / 20"
    using noise_const_lower noise_const_upper by (simp_all add: TxPowerToSNR_eq)
  then have "TxPowerToSNR (- 100) / 20 \<noteq> (19 * TxPowerToSNR (- 80) + TxPowerToSNR (- 100)) / 20"
    by linarith
  with l g n show ?thesis
    by (simp only: packetSNR_example_default simp_thms)
qed

text \<open>
  Claim C3 says that, under the max policy over the gateways, the per-packet SNR is the
  conversion applied once to the maximum reported power. \<^verbatim>\<open>GetReceivedPower\<close> converts
  the maximum already, and the history loop converts its result again: for reports of 3
  and 5 dBm the per-packet SNR is \<open>TxPowerToSNR (TxPowerToSNR 5)\<close>, above 239 dB, where one
  conversion gives less than 123 dB.
\<close>

theorem C3_max_policy_converts_twice:
  "GetMaxTxFromGateways [(0, \<lparr>rxPower = 3\<rparr>), (1, \<lparr>rxPower = 5\<rparr>)] = 5
   \<and> GetReceivedPower \<lparr>tpAveraging = False, historyRange = 20, historyAveraging = True\<rparr>
         [(0, \<lparr>rxPower = 3\<rparr>), (1, \<lparr>rxPower = 5\<rparr>)] = Inr (TxPowerToSNR 5)
   \<and> packetSNR \<lparr>tpAveraging = False, historyRange = 20, historyAveraging = True\<rparr>
         (0, \<lparr>gwList = [(0, \<lparr>rxPower = 3\<rparr>), (1, \<lparr>rxPower = 5\<rparr>)]\<rparr>)
       = Inr (TxPowerToSNR (TxPowerToSNR 5))
   \<and> TxPowerToSNR (TxPowerToSNR 5) \<noteq> TxPowerToSNR 5
   \<and> TxPowerToSNR 5 < 123 \<and> 239 < TxPowerToSNR (TxPowerToSNR 5)"
proof -
  have m: "GetMaxTxFromGateways [(0, \<lparr>rxPower = 3\<rparr>), (1, \<lparr>rxPower = 5\<rparr>)] = 5"
    by (simp add: GetMaxTxFromGateways_def min_transmissionPower_def)
  have n: "TxPowerToSNR 5 < 123" "239 < TxPowerToSNR (TxPowerToSNR 5)"
    using noise_const_lower noise_const_upper by (simp_all add: TxPowerToSNR_eq)
  then have "TxPowerToSNR (TxPowerToSNR 5) \<noteq> TxPowerToSNR 5"
    by linarith
  with m n show ?thesis
    by (simp add: packetSNR_def GetReceivedPower_def)
qed

subsection \<open>The decision on well-formed inputs, and the hook\<close>

lemma treshold_at_bounds:
  assumes "7 \<le> sf" "sf \<le> 12"
  shows "\<exists>r. treshold_at (SfToDr sf) = Inr r \<and> - 20 \<le> r \<and> r \<le> 0"
proof -
  from assms have "sf = 7 \<or> sf = 8 \<or> sf = 9 \<or> sf = 10 \<or> sf = 11 \<or> sf = 12"
    by arith
  then show ?thesis
    by (auto simp: treshold_at_def SfToDr_def treshold_def)
qed

lemma nsteps_defined:
  assumes "well_formed this status"
  shows "\<exists>s. AdrImplementation_nsteps this status = Inr s \<and> \<bar>s\<bar> \<le> 444"
proof -
  from m_SNR_defined[OF assms]
  obtain m where m: "AdrImplementation_m_SNR this status = Inr m" "\<bar>m\<bar> \<le> 1300"
    by blast
  from assms have "7 \<le> firstReceiveWindowSpreadingFactor status"
    "firstReceiveWindowSpreadingFactor status \<le> 12"
    by (simp_all add: well_formed_def)
  from treshold_at_bounds[OF this]
  obtain r where r: "treshold_at (SfToDr (firstReceiveWindowSpreadingFactor status)) = Inr r"
    "- 20 \<le> r" "r \<le> 0"
    by blast
  define s where "s = \<lfloor>(m - r - real_of_int offset) / 3\<rfloor>"
  have "- 444 \<le> (m - r - real_of_int offset) / 3" "(m - r - real_of_int offset) / 3 < 445"
    using m(2) r(2,3) by (simp_all add: offset_def)
  then have b: "- 444 \<le> s" "s < 445"
    unfolding s_def by (simp_all add: le_floor_iff floor_less_iff)
  then have "double_to_int (real_of_int s) = Inr s"
    by (intro double_to_int_of_int) simp_all
  then have "AdrImplementation_nsteps this status = Inr s"
    by (simp add: AdrImplementation_nsteps_def m(1) r(1) Let_def s_def)
  with b show ?thesis by auto
qed

lemma steps_bound:
  assumes "\<bar>s\<bar> \<le> 444" "\<bar>tp\<bar> \<le> 1000"
  shows "\<bar>snd (AdrImplementation_steps s sf tp)\<bar> \<le> 2400"
proof (cases "0 \<le> s")
  case True
  define k where "k = max 0 (min (s - max 0 (min s (sf - 7))) \<lceil>(tp - 2) / 3\<rceil>)"
  have "0 \<le> k" unfolding k_def by (rule max.cobounded1)
  moreover have "k \<le> s - max 0 (min s (sf - 7))"
    unfolding k_def using True by (intro clip_le) (simp add: clip_le)
  moreover have "0 \<le> max 0 (min s (sf - 7))" by (rule max.cobounded1)
  ultimately have "0 \<le> k" "k \<le> 444" using assms(1) by linarith+
  then have "\<bar>tp - 3 * real_of_int k\<bar> \<le> 2400"
    using assms(2) by simp
  then show ?thesis
    unfolding steps_nonneg[OF True] snd_conv k_def .
next
  case False
  then have s: "s \<le> 0" by simp
  define k where "k = max 0 (min (- s) \<lceil>(14 - tp) / 3\<rceil>)"
  have "0 \<le> k" unfolding k_def by (rule max.cobounded1)
  moreover have "k \<le> - s"
    unfolding k_def using s by (intro clip_le) simp
  ultimately have "0 \<le> k" "k \<le> 444" using assms(1) by linarith+
  then have "\<bar>tp + 3 * real_of_int k\<bar> \<le> 2400"
    using assms(2) by simp
  then show ?thesis
    unfolding steps_nonpos[OF s] snd_conv k_def .
qed

lemma double_to_int_bounded:
  assumes "\<bar>x\<bar> \<le> 2400"
  shows "\<exists>i. double_to_int x = Inr i"
proof -
  have "- 2400 \<le> \<lfloor>x\<rfloor>" "\<lfloor>x\<rfloor> \<le> 2400" "- 2400 \<le> \<lceil>x\<rceil>" "\<lceil>x\<rceil> \<le> 2400"
    using assms by (simp_all add: le_floor_iff floor_le_iff le_ceiling_iff ceiling_le_iff)
  then show ?thesis
    by (simp add: double_to_int_def Let_def)
qed

lemma AdrImplementation_defined:
  assumes "well_formed this status"
  shows "\<exists>dr tp. AdrImplementation this status = Inr (dr, tp)"
proof -
  from nsteps_defined[OF assms]
  obtain s where s: "AdrImplementation_nsteps this status = Inr s" "\<bar>s\<bar> \<le> 444"
    by blast
  from assms have t: "\<bar>transmissionPower status\<bar> \<le> 1000"
    by (simp add: well_formed_def)
  obtain sf' tp' where f: "AdrImplementation_steps s (firstReceiveWindowSpreadingFactor status)
      (transmissionPower status) = (sf', tp')"
    by (cases "AdrImplementation_steps s (firstReceiveWindowSpreadingFactor status)
      (transmissionPower status)")
  from steps_bound[OF s(2) t, of "firstReceiveWindowSpreadingFactor status"]
  have "\<bar>tp'\<bar> \<le> 2400" by (simp add: f)
  from double_to_int_bounded[OF this] obtain i where "double_to_int tp' = Inr i"
    by blast
  then show ?thesis
    by (simp add: AdrImplementation_def AdrImplementation_final_def s(1) f)
qed

text \<open>The decision reads the history, the spreading factor and the power only.\<close>

lemma AdrImplementation_m_reply:
  "AdrImplementation this (status\<lparr>m_reply := r\<rparr>) = AdrImplementation this status"
  by (simp add: AdrImplementation_def AdrImplementation_final_def AdrImplementation_nsteps_def
      AdrImplementation_m_SNR_def cong: sum.case_cong)

text \<open>
  Claim C6: \<^verbatim>\<open>BeforeSendingReply\<close> returns the device record unchanged unless the ADR bit
  of the last uplink is set and the history has at least \<^verbatim>\<open>historyRange\<close> packets. In
  that case it sets \<^verbatim>\<open>needsReply\<close>, appends the command with the decided data rate and
  power, the channels 1, 2, 3 and one repetition, and marks the reply as an unconfirmed
  downlink; the decision has a value on every well-formed input.
\<close>

theorem C6_reply_iff_adr_and_history:
  "(\<not> (lastPacketAdr status \<and> historyRange this \<le> length (receivedPacketList status))
      \<longrightarrow> BeforeSendingReply this status = Inr status)
   \<and> (lastPacketAdr status \<and> historyRange this \<le> length (receivedPacketList status) \<longrightarrow>
        (case AdrImplementation this status of
           Inl f \<Rightarrow> BeforeSendingReply this status = Inl f
         | Inr (newDataRate, newTxPower) \<Rightarrow>
             BeforeSendingReply this status =
               Inr (status\<lparr>m_reply :=
                 \<lparr>needsReply = True,
                  frameHeader =
                    \<lparr>macCommands = macCommands (frameHeader (m_reply status)) @
                       [\<lparr>dataRate = newDataRate, txPower = newTxPower,
                         enabledChannels = [1, 2, 3], repetitions = 1\<rparr>],
                     isUplink = False\<rparr>,
                  macHeader = \<lparr>mtype = UNCONFIRMED_DATA_DOWN\<rparr>\<rparr>\<rparr>)))
   \<and> (well_formed this status \<longrightarrow> (\<exists>dr tp. AdrImplementation this status = Inr (dr, tp)))"
proof -
  have a: "BeforeSendingReply this status = Inr status"
    if "\<not> (lastPacketAdr status \<and> historyRange this \<le> length (receivedPacketList status))"
    using that by (auto simp: BeforeSendingReply_def)
  have b: "(case AdrImplementation this status of
           Inl f \<Rightarrow> BeforeSendingReply this status = Inl f
         | Inr (newDataRate, newTxPower) \<Rightarrow>
             BeforeSendingReply this status =
               Inr (status\<lparr>m_reply :=
                 \<lparr>needsReply = True,
                  frameHeader =
                    \<lparr>macCommands = macCommands (frameHeader (m_reply status)) @
                       [\<lparr>dataRate = newDataRate, txPower = newTxPower,
                         enabledChannels = [1, 2, 3], repetitions = 1\<rparr>],
                     isUplink = False\<rparr>,
                  macHeader = \<lparr>mtype = UNCONFIRMED_DATA_DOWN\<rparr>\<rparr>\<rparr>))"
    if "lastPacketAdr status \<and> historyRange this \<le> length (receivedPacketList status)"
    using that
    by (simp add: BeforeSendingReply_def Let_def AdrImplementation_m_reply AddLinkAdrReq_def
        SetAsDownlink_def SetMType_def split: sum.splits prod.splits)
  from a b AdrImplementation_defined show ?thesis by blast
qed

lemma AdrImplementation_of_nsteps:
  assumes "AdrImplementation_nsteps this status = Inr steps"
  shows "AdrImplementation_final this status =
           Inr (AdrImplementation_steps steps (firstReceiveWindowSpreadingFactor status)
                  (transmissionPower status))"
  by (simp add: AdrImplementation_final_def assms)

text \<open>
  Claim C7: from a spreading factor in 7..12 and a power in {2, 5, 8, 11, 14}, whatever
  the number of steps, the final spreading factor is in 7..12, the final power is in
  2..14 and differs from the initial one by a multiple of 3, and both saturate:
  a positive number of steps lowers the spreading factor down to 7 at most and spends
  what is left on the power, down to 2 at most; a negative one raises the power up to 14
  at most. The number of steps has a value on every well-formed input.
\<close>

theorem C7_step_policy_saturates:
  assumes "7 \<le> sf" "sf \<le> 12" "tp \<in> {2, 5, 8, 11, 14}"
    and "firstReceiveWindowSpreadingFactor status = sf"
    and "transmissionPower status = real_of_int tp"
  shows "(\<forall>steps. AdrImplementation_nsteps this status = Inr steps \<longrightarrow>
           (\<exists>sf' tp'. AdrImplementation_final this status = Inr (sf', real_of_int tp')
              \<and> AdrImplementation this status = Inr (SfToDr sf', tp')
              \<and> 7 \<le> sf' \<and> sf' \<le> 12 \<and> 2 \<le> tp' \<and> tp' \<le> 14 \<and> 3 dvd (tp' - tp)
              \<and> sf' = (if steps > 0 then max 7 (sf - steps) else sf)
              \<and> tp' = (if steps > 0 then max 2 (tp - 3 * (steps - (sf - sf')))
                       else min 14 (tp - 3 * steps))))
       \<and> (well_formed this status \<longrightarrow> (\<exists>steps. AdrImplementation_nsteps this status = Inr steps))"
proof (intro conjI allI impI)
  fix steps
  assume n: "AdrImplementation_nsteps this status = Inr steps"
  define sf' where "sf' = (if steps > 0 then max 7 (sf - steps) else sf)"
  define tp' where "tp' = (if steps > 0 then max 2 (tp - 3 * (steps - (sf - sf')))
                       else min 14 (tp - 3 * steps))"
  have g: "AdrImplementation_steps steps sf (real_of_int tp) = (sf', real_of_int tp')"
    unfolding steps_grid[OF assms(1-3)] sf'_def tp'_def by simp
  have f: "AdrImplementation_final this status = Inr (sf', real_of_int tp')"
    using AdrImplementation_of_nsteps[OF n] g assms(4,5) by simp
  have b1: "7 \<le> sf'" "sf' \<le> 12"
    using assms(1,2) by (auto simp: sf'_def)
  have l: "0 \<le> steps - (sf - sf')" if "steps > 0"
    using that assms(1) by (auto simp: sf'_def max_def)
  have b2: "2 \<le> tp'" "tp' \<le> 14"
    using assms(3) l by (auto simp: tp'_def max_def min_def)
  have d: "3 dvd (tp' - tp)"
  proof -
    have "3 dvd (tp - 2)" "3 dvd (14 - tp)" using assms(3) by auto
    then show ?thesis
      by (auto simp: tp'_def max_def min_def dvd_diff_commute)
  qed
  have "double_to_int (real_of_int tp') = Inr tp'"
    using b2 by (intro double_to_int_of_int) simp_all
  then have a: "AdrImplementation this status = Inr (SfToDr sf', tp')"
    by (simp add: AdrImplementation_def f)
  show "\<exists>sf' tp'. AdrImplementation_final this status = Inr (sf', real_of_int tp')
              \<and> AdrImplementation this status = Inr (SfToDr sf', tp')
              \<and> 7 \<le> sf' \<and> sf' \<le> 12 \<and> 2 \<le> tp' \<and> tp' \<le> 14 \<and> 3 dvd (tp' - tp)
              \<and> sf' = (if steps > 0 then max 7 (sf - steps) else sf)
              \<and> tp' = (if steps > 0 then max 2 (tp - 3 * (steps - (sf - sf')))
                       else min 14 (tp - 3 * steps))"
    using f a b1 b2 d sf'_def tp'_def by blast
next
  assume "well_formed this status"
  from nsteps_defined[OF this]
  show "\<exists>steps. AdrImplementation_nsteps this status = Inr steps" by blast
qed

lemma well_formed_example:
  "7 \<le> sf \<Longrightarrow> sf \<le> 12 \<Longrightarrow> \<bar>tp\<bar> \<le> 1000 \<Longrightarrow>
   well_formed AdrComponent_default
     (example_status\<lparr>firstReceiveWindowSpreadingFactor := sf, transmissionPower := tp\<rparr>)"
  by (simp add: well_formed_def AdrComponent_default_def example_status_def example_packet_def)

lemma nsteps_example_8:
  "AdrImplementation_nsteps AdrComponent_default
     (example_status\<lparr>firstReceiveWindowSpreadingFactor := 8, transmissionPower := 5\<rparr>) = Inr 3"
proof -
  have t: "treshold_at (SfToDr 8) = Inr (- 35 / 2)"
    by (simp add: treshold_at_SfToDr treshold_def)
  have "real_of_int 3 \<le> ((- 80 + noise_const) / 20 - (- 35 / 2) - 10) / 3"
    and "((- 80 + noise_const) / 20 - (- 35 / 2) - 10) / 3 < real_of_int 3 + 1"
    using noise_const_lower noise_const_upper by (simp_all add: field_simps)
  then have "\<lfloor>((- 80 + noise_const) / 20 - (- 35 / 2) - 10) / 3\<rfloor> = 3"
    by (rule floor_unique)
  then have "\<lfloor>((- 80 + noise_const) / 20 - (- 35 / 2) - real_of_int offset) / 3\<rfloor> = 3"
    by (simp add: offset_def)
  then show ?thesis
    by (simp add: AdrImplementation_nsteps_def m_SNR_example t Let_def double_to_int_def)
qed

text \<open>
  Claim C7 on the example history at spreading factor 8 and 5 dBm: three steps, of which
  one lowers the spreading factor to 7, one lowers the power to 2 dBm, and one is dropped.
\<close>

theorem C7_step_policy_saturates_witness:
  "(7::int) \<le> 8 \<and> (8::int) \<le> 12 \<and> (5::int) \<in> {2, 5, 8, 11, 14}
   \<and> AdrImplementation_nsteps AdrComponent_default
     (example_status\<lparr>firstReceiveWindowSpreadingFactor := 8, transmissionPower := 5\<rparr>) = Inr 3
   \<and> AdrImplementation_final AdrComponent_default
     (example_status\<lparr>firstReceiveWindowSpreadingFactor := 8, transmissionPower := 5\<rparr>) = Inr (7, 2)
   \<and> AdrImplementation AdrComponent_default
     (example_status\<lparr>firstReceiveWindowSpreadingFactor := 8, transmissionPower := 5\<rparr>) = Inr (0, 2)
   \<and> well_formed AdrComponent_default
     (example_status\<lparr>firstReceiveWindowSpreadingFactor := 8, transmissionPower := 5\<rparr>)"
proof -
  let ?st = "example_status\<lparr>firstReceiveWindowSpreadingFactor := 8, transmissionPower := 5\<rparr>"
  have w: "well_formed AdrComponent_default ?st"
    by (rule well_formed_example) simp_all
  have "\<exists>sf' tp'. AdrImplementation_final AdrComponent_default ?st = Inr (sf', real_of_int tp')
              \<and> AdrImplementation AdrComponent_default ?st = Inr (SfToDr sf', tp')
              \<and> sf' = (if (3::int) > 0 then max 7 (8 - 3) else 8)
              \<and> tp' = (if (3::int) > 0 then max 2 (5 - 3 * (3 - (8 - sf')))
                       else min 14 (5 - 3 * 3))"
    using C7_step_policy_saturates[where sf = 8 and tp = 5 and status = ?st
        and this = AdrComponent_default] nsteps_example_8
    by simp
  then have "AdrImplementation_final AdrComponent_default ?st = Inr (7, 2)
     \<and> AdrImplementation AdrComponent_default ?st = Inr (0, 2)"
    by (auto simp: SfToDr_def)
  with w nsteps_example_8 show ?thesis by simp
qed

text \<open>
  Claim C6 on the example device: the command (data rate 0, 5 dBm) is staged; without the
  ADR bit, or with nineteen packets only, the record is returned as it was.
\<close>

theorem C6_reply_iff_adr_and_history_witness:
  "lastPacketAdr example_status
   \<and> historyRange AdrComponent_default \<le> length (receivedPacketList example_status)
   \<and> well_formed AdrComponent_default example_status
   \<and> BeforeSendingReply AdrComponent_default example_status =
       Inr (example_status\<lparr>m_reply :=
              \<lparr>needsReply = True,
               frameHeader =
                 \<lparr>macCommands =
                    [\<lparr>dataRate = 0, txPower = 5, enabledChannels = [1, 2, 3], repetitions = 1\<rparr>],
                  isUplink = False\<rparr>,
               macHeader = \<lparr>mtype = UNCONFIRMED_DATA_DOWN\<rparr>\<rparr>\<rparr>)
   \<and> BeforeSendingReply AdrComponent_default (example_status\<lparr>lastPacketAdr := False\<rparr>) =
       Inr (example_status\<lparr>lastPacketAdr := False\<rparr>)
   \<and> BeforeSendingReply AdrComponent_default
         (example_status\<lparr>receivedPacketList := replicate 19 (example_packet (- 80))\<rparr>) =
       Inr (example_status\<lparr>receivedPacketList := replicate 19 (example_packet (- 80))\<rparr>)"
proof -
  have h: "lastPacketAdr example_status"
    "historyRange AdrComponent_default \<le> length (receivedPacketList example_status)"
    "macCommands (frameHeader (m_reply example_status)) = []"
    by (simp_all add: example_status_def AdrComponent_default_def example_reply_def)
  have w: "well_formed AdrComponent_default example_status"
    using well_formed_example[of 7 14] by (simp add: example_status_def)
  have 1: "BeforeSendingReply AdrComponent_default example_status =
       Inr (example_status\<lparr>m_reply :=
              \<lparr>needsReply = True,
               frameHeader =
                 \<lparr>macCommands =
                    [\<lparr>dataRate = 0, txPower = 5, enabledChannels = [1, 2, 3], repetitions = 1\<rparr>],
                  isUplink = False\<rparr>,
               macHeader = \<lparr>mtype = UNCONFIRMED_DATA_DOWN\<rparr>\<rparr>\<rparr>)"
    using C6_reply_iff_adr_and_history[where status = example_status and this = AdrComponent_default]
      h AdrImplementation_example
    by simp
  have 2: "BeforeSendingReply AdrComponent_default (example_status\<lparr>lastPacketAdr := False\<rparr>) =
       Inr (example_status\<lparr>lastPacketAdr := False\<rparr>)"
    using C6_reply_iff_adr_and_history[where status = "example_status\<lparr>lastPacketAdr := False\<rparr>"
        and this = AdrComponent_default]
    by simp
  have 3: "BeforeSendingReply AdrComponent_default
         (example_status\<lparr>receivedPacketList := replicate 19 (example_packet (- 80))\<rparr>) =
       Inr (example_status\<lparr>receivedPacketList := replicate 19 (example_packet (- 80))\<rparr>)"
    using C6_reply_iff_adr_and_history[where
        status = "example_status\<lparr>receivedPacketList := replicate 19 (example_packet (- 80))\<rparr>"
        and this = AdrComponent_default]
    by (simp add: AdrComponent_default_def)
  from h(1,2) w 1 2 3 show ?thesis by simp
qed

subsection \<open>Monotonicity of the decision in the per-packet SNR\<close>

lemma m_SNR_mono:
  assumes d: "0 < delta"
    and r: "list_all2 (\<lambda>it it'. \<exists>x. packetSNR this it = Inr x \<and> packetSNR this it' = Inr (x + delta))
           (receivedPacketList status) (receivedPacketList status')"
    and m: "AdrImplementation_m_SNR this status = Inr m"
  shows "\<exists>m'. AdrImplementation_m_SNR this status' = Inr m' \<and> m \<le> m'"
proof -
  let ?n = "historyRange this"
  let ?R = "\<lambda>it it'. \<exists>x. packetSNR this it = Inr x \<and> packetSNR this it' = Inr (x + delta)"
  let ?w = "take ?n (rev (receivedPacketList status))"
  let ?w' = "take ?n (rev (receivedPacketList status'))"
  have len: "length (receivedPacketList status') = length (receivedPacketList status)"
    using r by (simp add: list_all2_lengthD)
  have rw: "list_all2 ?R ?w ?w'"
    using r by (intro list_all2_takeI) simp
  have lw: "length ?w' = length ?w"
    using rw by (rule list_all2_lengthD[symmetric])
  have nth: "\<exists>x. packetSNR this (?w ! i) = Inr x \<and> packetSNR this (?w' ! i) = Inr (x + delta)"
    if "i < length ?w" for i
    using list_all2_nthD[OF rw that] .
  have def': "\<forall>it \<in> set ?w'. \<exists>x. packetSNR this it = Inr x"
  proof
    fix it assume "it \<in> set ?w'"
    then obtain i where i: "i < length ?w'" "?w' ! i = it"
      by (auto simp: in_set_conv_nth)
    then have "i < length ?w" by (simp only: lw)
    from nth[OF this] i(2) show "\<exists>x. packetSNR this it = Inr x" by auto
  qed
  show ?thesis
  proof (cases "historyAveraging this")
    case True
    with m have g: "GetAverageSNR this (receivedPacketList status) ?n = Inr m"
      by (simp add: AdrImplementation_m_SNR_def)
    then obtain sm x where l: "GetAverageSNR_loop this (rev (receivedPacketList status)) ?n 0 None
        = Inr (sm, Some x)" and n0: "?n \<noteq> 0" and mx: "m = x / real ?n"
      by (auto simp: GetAverageSNR_def split: sum.splits option.splits if_splits)
    from GetAverageSNR_loop_Inr[OF l] n0
    have n: "?n \<le> length (receivedPacketList status)"
      and px: "packetSNR this (rev (receivedPacketList status) ! (?n - 1)) = Inr x"
      by auto
    from n0 have np: "0 < ?n" by simp
    from n len have n': "?n \<le> length (receivedPacketList status')" by simp
    from GetAverageSNR_Inr[OF np n' def']
    obtain x' where px': "packetSNR this (rev (receivedPacketList status') ! (?n - 1)) = Inr x'"
      and g': "GetAverageSNR this (receivedPacketList status') ?n = Inr (x' / real ?n)"
      by blast
    have i: "?n - 1 < length ?w" using np n by simp
    from nth[OF i] px px' np have "x' = x + delta" by simp
    then have "x / real ?n \<le> x' / real ?n"
      using d np by (simp add: divide_right_mono)
    then show ?thesis
      using True g' mx by (simp add: AdrImplementation_m_SNR_def)
  next
    case False
    let ?fl = "TxPowerToSNR (real_of_int min_transmissionPower)"
    from False m have g: "GetMaxSNR_loop this (rev (receivedPacketList status)) ?n ?fl = Inr m"
      by (simp add: AdrImplementation_m_SNR_def GetMaxSNR_def)
    from GetMaxSNR_loop_Inr[OF g]
    have n: "?n \<le> length (receivedPacketList status)"
      and c: "m = ?fl \<or> (\<exists>it \<in> set ?w. packetSNR this it = Inr m)"
      by simp_all
    from n len have n': "?n \<le> length (receivedPacketList status')" by simp
    from GetMaxSNR_Inr[OF n' def']
    obtain v where g': "GetMaxSNR this (receivedPacketList status') ?n = Inr v"
      and fl: "?fl \<le> v"
      and up: "\<forall>it \<in> set ?w'. \<exists>x. packetSNR this it = Inr x \<and> x \<le> v"
      by blast
    have "m \<le> v"
      using c
    proof
      assume "m = ?fl"
      with fl show ?thesis by simp
    next
      assume "\<exists>it \<in> set ?w. packetSNR this it = Inr m"
      then obtain i where i: "i < length ?w" "packetSNR this (?w ! i) = Inr m"
        by (auto simp: in_set_conv_nth)
      from nth[OF i(1)] i(2) have p': "packetSNR this (?w' ! i) = Inr (m + delta)" by simp
      have "i < length ?w'" using i(1) by (simp only: lw)
      then have "?w' ! i \<in> set ?w'" by (rule nth_mem)
      with up p' have "m + delta \<le> v" by auto
      with d show ?thesis by simp
    qed
    then show ?thesis
      using False g' by (simp add: AdrImplementation_m_SNR_def)
  qed
qed

lemma double_to_int_of_int_cases:
  "double_to_int (real_of_int i) = Inr i \<or> double_to_int (real_of_int i) = Inl ConversionOutOfRange"
  by (simp add: double_to_int_def)

lemma nsteps_mono:
  assumes d: "0 < delta"
    and r: "list_all2 (\<lambda>it it'. \<exists>x. packetSNR this it = Inr x \<and> packetSNR this it' = Inr (x + delta))
           (receivedPacketList status) (receivedPacketList status')"
    and sf: "firstReceiveWindowSpreadingFactor status' = firstReceiveWindowSpreadingFactor status"
    and n: "AdrImplementation_nsteps this status = Inr s"
  shows "(\<exists>s'. AdrImplementation_nsteps this status' = Inr s' \<and> s \<le> s')
       \<or> AdrImplementation_nsteps this status' = Inl ConversionOutOfRange"
proof -
  from n obtain m q where m: "AdrImplementation_m_SNR this status = Inr m"
    and q: "treshold_at (SfToDr (firstReceiveWindowSpreadingFactor status)) = Inr q"
    and c: "double_to_int (real_of_int \<lfloor>(m - q - real_of_int offset) / 3\<rfloor>) = Inr s"
    by (auto simp: AdrImplementation_nsteps_def Let_def split: sum.splits)
  from double_to_int_of_int_cases[of "\<lfloor>(m - q - real_of_int offset) / 3\<rfloor>"] c
  have s: "s = \<lfloor>(m - q - real_of_int offset) / 3\<rfloor>" by simp
  from m_SNR_mono[OF d r m] obtain m' where m': "AdrImplementation_m_SNR this status' = Inr m'"
    and le: "m \<le> m'"
    by blast
  define s' where "s' = \<lfloor>(m' - q - real_of_int offset) / 3\<rfloor>"
  have "(m - q - real_of_int offset) / 3 \<le> (m' - q - real_of_int offset) / 3"
    using le by simp
  then have ss: "s \<le> s'"
    unfolding s s'_def by (rule floor_mono)
  have e: "AdrImplementation_nsteps this status' = double_to_int (real_of_int s')"
    by (simp add: AdrImplementation_nsteps_def m' sf q Let_def s'_def)
  from double_to_int_of_int_cases[of s'] show ?thesis
    unfolding e using ss by auto
qed

lemma list_all2_replicate_same:
  "P x y \<Longrightarrow> list_all2 P (replicate n x) (replicate n y)"
  by (simp add: list_all2_conv_all_nth)

lemma nsteps_example_50:
  "AdrImplementation_nsteps AdrComponent_default
     (example_status\<lparr>receivedPacketList := replicate 20 (example_packet (- 50))\<rparr>) = Inr 4"
proof -
  let ?st = "example_status\<lparr>receivedPacketList := replicate 20 (example_packet (- 50))\<rparr>"
  have "GetAverageSNR AdrComponent_default (replicate 20 (example_packet (- 50))) 20
               = Inr (TxPowerToSNR (- 50) / real 20)"
    by (rule GetAverageSNR_replicate) (simp_all add: packetSNR_example_default)
  then have m: "AdrImplementation_m_SNR AdrComponent_default ?st = Inr ((- 50 + noise_const) / 20)"
    by (simp add: AdrImplementation_m_SNR_def AdrComponent_default_def TxPowerToSNR_eq)
  have sf: "firstReceiveWindowSpreadingFactor ?st = 7" and tp: "transmissionPower ?st = 14"
    by (simp_all add: example_status_def)
  have t: "treshold_at (SfToDr 7) = Inr (- 20)"
    by (simp add: treshold_at_SfToDr treshold_def)
  have "real_of_int 4 \<le> ((- 50 + noise_const) / 20 - (- 20) - 10) / 3"
    and "((- 50 + noise_const) / 20 - (- 20) - 10) / 3 < real_of_int 4 + 1"
    using noise_const_lower noise_const_upper by (simp_all add: field_simps)
  then have "\<lfloor>((- 50 + noise_const) / 20 - (- 20) - 10) / 3\<rfloor> = 4"
    by (rule floor_unique)
  then have "\<lfloor>((- 50 + noise_const) / 20 - (- 20) - real_of_int offset) / 3\<rfloor> = 4"
    by (simp add: offset_def)
  then show ?thesis
    by (simp add: AdrImplementation_nsteps_def m sf t Let_def double_to_int_def)
qed

lemma final_example_50:
  "AdrImplementation_final AdrComponent_default
     (example_status\<lparr>receivedPacketList := replicate 20 (example_packet (- 50))\<rparr>) = Inr (7, 2)"
proof -
  let ?st = "example_status\<lparr>receivedPacketList := replicate 20 (example_packet (- 50))\<rparr>"
  have sf: "firstReceiveWindowSpreadingFactor ?st = 7" and tp: "transmissionPower ?st = 14"
    by (simp_all add: example_status_def)
  have "AdrImplementation_steps 4 7 (real_of_int 14) = (7, 2)"
    by (subst steps_grid) simp_all
  then show ?thesis
    by (simp add: AdrImplementation_final_def nsteps_example_50 sf tp)
qed

text \<open>
  Claim C8 says that raising every per-packet SNR by any constant \<open>delta > 0\<close> gives a
  decision with a spreading factor and a power that are not higher. For a large
  \<open>delta\<close> there is no such decision: on the example device, with every packet heard
  \<open>10^12\<close> dB stronger, the number of steps \<open>floor (margin / 3)\<close> is above \<open>2^31\<close> and
  its conversion to \<^verbatim>\<open>int\<close> has no value.
\<close>

theorem C8_large_delta_counterexample:
  "0 < (1000000000000::real)
   \<and> list_all2 (\<lambda>it it'. \<exists>x. packetSNR AdrComponent_default it = Inr x
                          \<and> packetSNR AdrComponent_default it' = Inr (x + 1000000000000))
       (receivedPacketList example_status)
       (receivedPacketList
          (example_status\<lparr>receivedPacketList := replicate 20 (example_packet 999999999920)\<rparr>))
   \<and> firstReceiveWindowSpreadingFactor
         (example_status\<lparr>receivedPacketList := replicate 20 (example_packet 999999999920)\<rparr>)
       = firstReceiveWindowSpreadingFactor example_status
   \<and> transmissionPower
         (example_status\<lparr>receivedPacketList := replicate 20 (example_packet 999999999920)\<rparr>)
       = transmissionPower example_status
   \<and> AdrImplementation_final AdrComponent_default example_status = Inr (7, 5)
   \<and> AdrImplementation_final AdrComponent_default
         (example_status\<lparr>receivedPacketList := replicate 20 (example_packet 999999999920)\<rparr>)
       = Inl ConversionOutOfRange
   \<and> \<not> (\<exists>sf' tp'. AdrImplementation_final AdrComponent_default
         (example_status\<lparr>receivedPacketList := replicate 20 (example_packet 999999999920)\<rparr>)
         = Inr (sf', tp') \<and> sf' \<le> 7 \<and> tp' \<le> 5)"
proof -
  let ?st' = "example_status\<lparr>receivedPacketList := replicate 20 (example_packet 999999999920)\<rparr>"
  have "\<exists>x. packetSNR AdrComponent_default (example_packet (- 80)) = Inr x
          \<and> packetSNR AdrComponent_default (example_packet 999999999920) = Inr (x + 1000000000000)"
    by (simp add: packetSNR_example_default TxPowerToSNR_eq)
  then have "list_all2 (\<lambda>it it'. \<exists>x. packetSNR AdrComponent_default it = Inr x
                          \<and> packetSNR AdrComponent_default it' = Inr (x + 1000000000000))
       (replicate 20 (example_packet (- 80))) (replicate 20 (example_packet 999999999920))"
    by (rule list_all2_replicate_same)
  then have r: "list_all2 (\<lambda>it it'. \<exists>x. packetSNR AdrComponent_default it = Inr x
                          \<and> packetSNR AdrComponent_default it' = Inr (x + 1000000000000))
       (receivedPacketList example_status) (receivedPacketList ?st')"
    by (simp add: example_status_def)
  have "GetAverageSNR AdrComponent_default (replicate 20 (example_packet 999999999920)) 20
               = Inr (TxPowerToSNR 999999999920 / real 20)"
    by (rule GetAverageSNR_replicate) (simp_all add: packetSNR_example_default)
  then have m: "AdrImplementation_m_SNR AdrComponent_default ?st'
                  = Inr ((999999999920 + noise_const) / 20)"
    by (simp add: AdrImplementation_m_SNR_def AdrComponent_default_def TxPowerToSNR_eq)
  have sf: "firstReceiveWindowSpreadingFactor ?st' = 7"
    by (simp add: example_status_def)
  have t: "treshold_at (SfToDr 7) = Inr (- 20)"
    by (simp add: treshold_at_SfToDr treshold_def)
  define k where "k = \<lfloor>((999999999920 + noise_const) / 20 - (- 20) - real_of_int offset) / 3\<rfloor>"
  have "real_of_int (2 ^ 31) \<le> ((999999999920 + noise_const) / 20 - (- 20) - real_of_int offset) / 3"
    using noise_const_lower by (simp add: offset_def field_simps)
  then have "2 ^ 31 \<le> k"
    unfolding k_def by (simp only: le_floor_iff)
  then have "double_to_int (real_of_int k) = Inl ConversionOutOfRange"
    by (simp add: double_to_int_def)
  then have n: "AdrImplementation_nsteps AdrComponent_default ?st' = Inl ConversionOutOfRange"
    by (simp add: AdrImplementation_nsteps_def m sf t Let_def k_def)
  then have f: "AdrImplementation_final AdrComponent_default ?st' = Inl ConversionOutOfRange"
    by (simp add: AdrImplementation_final_def)
  from r f final_example show ?thesis
    by simp
qed

text \<open>
  Claim C8, amended: take two device records with the same spreading factor and power,
  and histories of the same length in which every per-packet SNR of the second is the one
  of the first plus a constant \<open>delta > 0\<close>, and let the number of steps of the second
  fit an \<^verbatim>\<open>int\<close>. If the decision on the first has the final spreading factor \<open>sf\<close>
  and power \<open>tp\<close>, then the decision on the second has a value, with a final spreading
  factor of at most \<open>sf\<close> and a final power of at most \<open>tp\<close>. The number of steps of the
  second fits an \<^verbatim>\<open>int\<close> whenever the second record is well-formed (powers of at most
  1000 dBm in absolute value).
\<close>

theorem C8_monotone_in_snr:
  assumes "0 < delta"
    and "list_all2 (\<lambda>it it'. \<exists>x. packetSNR this it = Inr x \<and> packetSNR this it' = Inr (x + delta))
           (receivedPacketList status) (receivedPacketList status')"
    and "firstReceiveWindowSpreadingFactor status' = firstReceiveWindowSpreadingFactor status"
    and "transmissionPower status' = transmissionPower status"
    and "AdrImplementation_final this status = Inr (sf, tp)"
  shows "(\<forall>s'. AdrImplementation_nsteps this status' = Inr s' \<longrightarrow>
            (\<exists>sf' tp'. AdrImplementation_final this status' = Inr (sf', tp')
               \<and> sf' \<le> sf \<and> tp' \<le> tp))
       \<and> (well_formed this status' \<longrightarrow> (\<exists>s'. AdrImplementation_nsteps this status' = Inr s'))"
proof (intro conjI allI impI)
  fix s'
  assume n': "AdrImplementation_nsteps this status' = Inr s'"
  from assms(5) obtain s where s: "AdrImplementation_nsteps this status = Inr s"
    and f: "AdrImplementation_steps s (firstReceiveWindowSpreadingFactor status)
              (transmissionPower status) = (sf, tp)"
    by (auto simp: AdrImplementation_final_def split: sum.splits)
  from nsteps_mono[OF assms(1-3) s] n' have le: "s \<le> s'"
    by auto
  obtain sf' tp' where f': "AdrImplementation_steps s' (firstReceiveWindowSpreadingFactor status)
              (transmissionPower status) = (sf', tp')"
    by (cases "AdrImplementation_steps s' (firstReceiveWindowSpreadingFactor status)
              (transmissionPower status)")
  from steps_mono[OF le, of "firstReceiveWindowSpreadingFactor status" "transmissionPower status"]
  have "sf' \<le> sf" "tp' \<le> tp" by (simp_all add: f f')
  then show "\<exists>sf' tp'. AdrImplementation_final this status' = Inr (sf', tp')
               \<and> sf' \<le> sf \<and> tp' \<le> tp"
    by (simp add: AdrImplementation_final_def n' assms(3,4) f')
next
  assume "well_formed this status'"
  from nsteps_defined[OF this]
  show "\<exists>s'. AdrImplementation_nsteps this status' = Inr s'" by blast
qed

text \<open>
  Claim C8, amended, on the example device and the same device heard 30 dB stronger: the
  number of steps goes from 3 to 4, the final power from 5 dBm to 2 dBm, and the
  spreading factor stays at 7.
\<close>

theorem C8_monotone_in_snr_witness:
  "0 < (30::real)
   \<and> list_all2 (\<lambda>it it'. \<exists>x. packetSNR AdrComponent_default it = Inr x
                          \<and> packetSNR AdrComponent_default it' = Inr (x + 30))
       (receivedPacketList example_status)
       (receivedPacketList (example_status\<lparr>receivedPacketList := replicate 20 (example_packet (- 50))\<rparr>))
   \<and> firstReceiveWindowSpreadingFactor
         (example_status\<lparr>receivedPacketList := replicate 20 (example_packet (- 50))\<rparr>)
       = firstReceiveWindowSpreadingFactor example_status
   \<and> transmissionPower
         (example_status\<lparr>receivedPacketList := replicate 20 (example_packet (- 50))\<rparr>)
       = transmissionPower example_status
   \<and> AdrImplementation_final AdrComponent_default example_status = Inr (7, 5)
   \<and> AdrImplementation_nsteps AdrComponent_default
         (example_status\<lparr>receivedPacketList := replicate 20 (example_packet (- 50))\<rparr>) = Inr 4
   \<and> well_formed AdrComponent_default
         (example_status\<lparr>receivedPacketList := replicate 20 (example_packet (- 50))\<rparr>)
   \<and> AdrImplementation_final AdrComponent_default
         (example_status\<lparr>receivedPacketList := replicate 20 (example_packet (- 50))\<rparr>) = Inr (7, 2)
   \<and> (\<exists>sf' tp'. AdrImplementation_final AdrComponent_default
         (example_status\<lparr>receivedPacketList := replicate 20 (example_packet (- 50))\<rparr>)
         = Inr (sf', tp') \<and> sf' \<le> 7 \<and> tp' \<le> 5)"
proof -
  let ?st' = "example_status\<lparr>receivedPacketList := replicate 20 (example_packet (- 50))\<rparr>"
  have "\<exists>x. packetSNR AdrComponent_default (example_packet (- 80)) = Inr x
          \<and> packetSNR AdrComponent_default (example_packet (- 50)) = Inr (x + 30)"
    by (simp add: packetSNR_example_default TxPowerToSNR_eq)
  then have "list_all2 (\<lambda>it it'. \<exists>x. packetSNR AdrComponent_default it = Inr x
                          \<and> packetSNR AdrComponent_default it' = Inr (x + 30))
       (replicate 20 (example_packet (- 80))) (replicate 20 (example_packet (- 50)))"
    by (rule list_all2_replicate_same)
  then have r: "list_all2 (\<lambda>it it'. \<exists>x. packetSNR AdrComponent_default it = Inr x
                          \<and> packetSNR AdrComponent_default it' = Inr (x + 30))
       (receivedPacketList example_status) (receivedPacketList ?st')"
    by (simp add: example_status_def)
  have s: "firstReceiveWindowSpreadingFactor ?st' = firstReceiveWindowSpreadingFactor example_status"
    "transmissionPower ?st' = transmissionPower example_status"
    by simp_all
  have w: "well_formed AdrComponent_default ?st'"
    by (simp add: well_formed_def AdrComponent_default_def example_status_def example_packet_def)
  have d: "(0::real) < 30" by simp
  from C8_monotone_in_snr[OF d r s final_example] nsteps_example_50
  have c: "\<exists>sf' tp'. AdrImplementation_final AdrComponent_default ?st' = Inr (sf', tp')
             \<and> sf' \<le> 7 \<and> tp' \<le> 5"
    by blast
  from r w c final_example final_example_50 nsteps_example_50 show ?thesis
    by simp
qed

end
